theory Spec2Isabelle
  imports Main "HOL-Library.Word"
begin

unbundle bit_operations_syntax

section \<open>Values of the Go program\<close>

text \<open>
  The package is \<^verbatim>\<open>link\<close>, file \<^verbatim>\<open>packetn.go\<close>: a length-prefixed framing of a byte
  stream, ``like Erlang's \<^verbatim>\<open>{packet, N}\<close>''.

  Go's \<^verbatim>\<open>int\<close> is modelled as HOL's \<open>int\<close>; every value the program holds in an
  \<^verbatim>\<open>int\<close> is taken on a 64-bit platform, so it lies in \<open>-2^63 .. 2^63 - 1\<close>. The
  conversions between \<^verbatim>\<open>int\<close> and the unsigned types, where the program truncates or
  reinterprets, are written out: \<^verbatim>\<open>byte(size)\<close>, \<^verbatim>\<open>uint16(size)\<close>, \<^verbatim>\<open>uint32(size)\<close>
  and \<^verbatim>\<open>uint64(size)\<close> are \<open>word_of_int\<close> (the low bits), \<^verbatim>\<open>int(x)\<close> of an 8, 16 or
  32 bit value is \<open>uint\<close>, and \<^verbatim>\<open>int(x)\<close> of a \<^verbatim>\<open>uint64\<close> is \<open>sint\<close> (the same 64
  bits read as two's complement).
\<close>

type_synonym byte = "8 word"

definition maxInt :: int where
  "maxInt = 2 ^ 63 - 1"

text \<open>
  Go's \<^verbatim>\<open>error\<close> is an interface; \<^verbatim>\<open>nil\<close> is \<open>None\<close> of \<open>error option\<close>. \<open>EOF\<close>,
  \<open>ErrUnexpectedEOF\<close> and \<open>ErrShortBuffer\<close> are the sentinels of package \<^verbatim>\<open>io\<close>;
  \<open>OtherError\<close> stands for every other error value a connection may report.
\<close>

text \<open>
  Modelled from the spec: the variable \<^verbatim>\<open>PacketTooLargeError\<close> is declared in another file
  of the package. The spec calls it a ``sentinel, distinguishing a size-policy violation
  from a transport failure'', a ``single process-wide immutable error-kind value'': one
  more value of the type, different from all the others.
\<close>

datatype error = PacketTooLargeError | EOF | ErrUnexpectedEOF | ErrShortBuffer
  | OtherError string

text \<open>A Go call either returns or panics.\<close>

datatype panic = MakesliceLenOutOfRange | IndexOutOfRange | UnsupportedPacketHeadSize

datatype 'a outcome = Returns 'a | Panics panic

section \<open>Package \<^verbatim>\<open>encoding/binary\<close>: the two byte orders\<close>

text \<open>
  \<^verbatim>\<open>binary.ByteOrder\<close> is an interface; the package offers the two implementations
  \<^verbatim>\<open>binary.BigEndian\<close> and \<^verbatim>\<open>binary.LittleEndian\<close>. Their methods are, in Go:
  \<^verbatim>\<open>
  func (bigEndian) PutUint16(b []byte, v uint16) {
      _ = b[1] // early bounds check to guarantee safety of writes below
      b[0] = byte(v >> 8)
      b[1] = byte(v)
  }
  func (bigEndian) Uint16(b []byte) uint16 {
      _ = b[1] // bounds check hint to compiler
      return uint16(b[1]) | uint16(b[0])<<8
  }
  func (littleEndian) PutUint16(b []byte, v uint16) {
      _ = b[1]
      b[0] = byte(v)
      b[1] = byte(v >> 8)
  }
  func (littleEndian) Uint16(b []byte) uint16 {
      _ = b[1]
      return uint16(b[0]) | uint16(b[1])<<8
  }
  \<close>
  and likewise for 32 and 64 bits. The slice is passed by reference and updated in place:
  the model returns the updated slice. The bounds check panics on a slice that is too
  short: \<open>Panics IndexOutOfRange\<close>.
\<close>

datatype ByteOrder = BigEndian | LittleEndian

definition PutUint16 :: "ByteOrder \<Rightarrow> byte list \<Rightarrow> 16 word \<Rightarrow> byte list outcome" where
  "PutUint16 byteOrder b v =
     (if length b \<le> 1 then Panics IndexOutOfRange
      else case byteOrder of
        BigEndian \<Rightarrow> Returns (b[0 := ucast (drop_bit 8 v), 1 := ucast v])
      | LittleEndian \<Rightarrow> Returns (b[0 := ucast v, 1 := ucast (drop_bit 8 v)]))"

definition Uint16 :: "ByteOrder \<Rightarrow> byte list \<Rightarrow> 16 word outcome" where
  "Uint16 byteOrder b =
     (if length b \<le> 1 then Panics IndexOutOfRange
      else case byteOrder of
        BigEndian \<Rightarrow> Returns (ucast (b ! 1) OR push_bit 8 (ucast (b ! 0)))
      | LittleEndian \<Rightarrow> Returns (ucast (b ! 0) OR push_bit 8 (ucast (b ! 1))))"

definition PutUint32 :: "ByteOrder \<Rightarrow> byte list \<Rightarrow> 32 word \<Rightarrow> byte list outcome" where
  "PutUint32 byteOrder b v =
     (if length b \<le> 3 then Panics IndexOutOfRange
      else case byteOrder of
        BigEndian \<Rightarrow> Returns (b[0 := ucast (drop_bit 24 v), 1 := ucast (drop_bit 16 v),
                               2 := ucast (drop_bit 8 v), 3 := ucast v])
      | LittleEndian \<Rightarrow> Returns (b[0 := ucast v, 1 := ucast (drop_bit 8 v),
                                  2 := ucast (drop_bit 16 v), 3 := ucast (drop_bit 24 v)]))"

definition Uint32 :: "ByteOrder \<Rightarrow> byte list \<Rightarrow> 32 word outcome" where
  "Uint32 byteOrder b =
     (if length b \<le> 3 then Panics IndexOutOfRange
      else case byteOrder of
        BigEndian \<Rightarrow> Returns (ucast (b ! 3) OR push_bit 8 (ucast (b ! 2))
                       OR push_bit 16 (ucast (b ! 1)) OR push_bit 24 (ucast (b ! 0)))
      | LittleEndian \<Rightarrow> Returns (ucast (b ! 0) OR push_bit 8 (ucast (b ! 1))
                       OR push_bit 16 (ucast (b ! 2)) OR push_bit 24 (ucast (b ! 3))))"

definition PutUint64 :: "ByteOrder \<Rightarrow> byte list \<Rightarrow> 64 word \<Rightarrow> byte list outcome" where
  "PutUint64 byteOrder b v =
     (if length b \<le> 7 then Panics IndexOutOfRange
      else case byteOrder of
        BigEndian \<Rightarrow> Returns (b[0 := ucast (drop_bit 56 v), 1 := ucast (drop_bit 48 v),
                               2 := ucast (drop_bit 40 v), 3 := ucast (drop_bit 32 v),
                               4 := ucast (drop_bit 24 v), 5 := ucast (drop_bit 16 v),
                               6 := ucast (drop_bit 8 v), 7 := ucast v])
      | LittleEndian \<Rightarrow> Returns (b[0 := ucast v, 1 := ucast (drop_bit 8 v),
                                  2 := ucast (drop_bit 16 v), 3 := ucast (drop_bit 24 v),
                                  4 := ucast (drop_bit 32 v), 5 := ucast (drop_bit 40 v),
                                  6 := ucast (drop_bit 48 v), 7 := ucast (drop_bit 56 v)]))"

definition Uint64 :: "ByteOrder \<Rightarrow> byte list \<Rightarrow> 64 word outcome" where
  "Uint64 byteOrder b =
     (if length b \<le> 7 then Panics IndexOutOfRange
      else case byteOrder of
        BigEndian \<Rightarrow> Returns (ucast (b ! 7) OR push_bit 8 (ucast (b ! 6))
                       OR push_bit 16 (ucast (b ! 5)) OR push_bit 24 (ucast (b ! 4))
                       OR push_bit 32 (ucast (b ! 3)) OR push_bit 40 (ucast (b ! 2))
                       OR push_bit 48 (ucast (b ! 1)) OR push_bit 56 (ucast (b ! 0)))
      | LittleEndian \<Rightarrow> Returns (ucast (b ! 0) OR push_bit 8 (ucast (b ! 1))
                       OR push_bit 16 (ucast (b ! 2)) OR push_bit 24 (ucast (b ! 3))
                       OR push_bit 32 (ucast (b ! 4)) OR push_bit 40 (ucast (b ! 5))
                       OR push_bit 48 (ucast (b ! 6)) OR push_bit 56 (ucast (b ! 7))))"

section \<open>The collaborators: connection and buffers\<close>

text \<open>
  \<^verbatim>\<open>net.Conn\<close> is an interface of the standard library. A connection is modelled as an
  object: a state of any type \<open>'c\<close> and the two methods the program calls, as functions
  of that state. \<^verbatim>\<open>Write(b)\<close> returns \<^verbatim>\<open>(n, err)\<close>. \<^verbatim>\<open>Read(p)\<close> is given the length of the
  slice \<open>p\<close> it may fill and returns the bytes it stored at the front of \<open>p\<close> and an
  error; it cannot store more than \<open>len(p)\<close> bytes, whatever the method computes.
\<close>

record 'c Conn =
  conn_state :: 'c
  conn_Write :: "'c \<Rightarrow> byte list \<Rightarrow> (int \<times> error option) \<times> 'c"
  conn_Read :: "'c \<Rightarrow> nat \<Rightarrow> (byte list \<times> error option) \<times> 'c"

definition Write :: "'c Conn \<Rightarrow> byte list \<Rightarrow> (int \<times> error option) \<times> 'c Conn" where
  "Write conn b =
     (case conn_Write conn (conn_state conn) b of
        (res, s) \<Rightarrow> (res, conn\<lparr>conn_state := s\<rparr>))"

definition Read :: "'c Conn \<Rightarrow> nat \<Rightarrow> (byte list \<times> error option) \<times> 'c Conn" where
  "Read conn k =
     (case conn_Read conn (conn_state conn) k of
        ((p, err), s) \<Rightarrow> ((take k p, err), conn\<lparr>conn_state := s\<rparr>))"

text \<open>
  Modelled from the spec: the interfaces \<^verbatim>\<open>OutBuffer\<close> and \<^verbatim>\<open>InBuffer\<close> are declared in
  another file of the package. The spec gives their contracts: ``OutBuffer: \<^verbatim>\<open>Len() \<rightarrow> int\<close>,
  \<^verbatim>\<open>Get() \<rightarrow>\<close> read-only byte view of the payload to send'' and ``InBuffer: \<^verbatim>\<open>Prepare(size)\<close>
  (resize/reset to receive \<open>size\<close> bytes), \<^verbatim>\<open>Get() \<rightarrow>\<close> mutable byte view of that size to
  fill''. A buffer is modelled as the bytes of its view. The spec gives \<^verbatim>\<open>Prepare\<close> no
  meaning at a negative size; no Go slice has a negative length, so there it panics.
  The view of an \<^verbatim>\<open>InBuffer\<close> shares its storage with the buffer: the bytes stored into
  the view are the buffer's contents afterwards.
\<close>

type_synonym OutBuffer = "byte list"
type_synonym InBuffer = "byte list"

definition Len :: "OutBuffer \<Rightarrow> int" where
  "Len buffer = int (length buffer)"

definition Get :: "byte list \<Rightarrow> byte list" where
  "Get buffer = buffer"

definition Prepare :: "int \<Rightarrow> InBuffer \<Rightarrow> InBuffer outcome" where
  "Prepare sz buffer =
     (if sz < 0 then Panics MakesliceLenOutOfRange else Returns (replicate (nat sz) 0))"

section \<open>Package \<^verbatim>\<open>io\<close>: \<^verbatim>\<open>ReadFull\<close>\<close>

text \<open>
  \<^verbatim>\<open>
  func ReadAtLeast(r Reader, buf []byte, min int) (n int, err error) {
      if len(buf) < min {
          return 0, ErrShortBuffer
      }
      for n < min && err == nil {
          var nn int
          nn, err = r.Read(buf[n:])
          n += nn
      }
      if n >= min {
          err = nil
      } else if n > 0 && err == EOF {
          err = ErrUnexpectedEOF
      }
      return
  }
  func ReadFull(r Reader, buf []byte) (n int, err error) {
      return ReadAtLeast(r, buf, len(buf))
  }
  \<close>
  The loop goes on for as long as the reader returns no error and too few bytes: with a
  reader that keeps returning \<^verbatim>\<open>(0, nil)\<close> it never ends. The loop is a partial function,
  \<open>None\<close> when it does not return. The result carries the connection and the slice as
  the call leaves them.
\<close>

partial_function (option) ReadAtLeast_loop ::
  "'c Conn \<Rightarrow> byte list \<Rightarrow> nat \<Rightarrow> nat \<Rightarrow> error option
     \<Rightarrow> ((nat \<times> error option) \<times> 'c Conn \<times> byte list) option" where
  "ReadAtLeast_loop r buf mn n err =
     (if n < mn \<and> err = None then
        (case Read r (length buf - n) of
           ((p, err'), r') \<Rightarrow>
             ReadAtLeast_loop r' (take n buf @ p @ drop (n + length p) buf) mn
               (n + length p) err')
      else Some ((n, err), r, buf))"

definition ReadAtLeast ::
  "'c Conn \<Rightarrow> byte list \<Rightarrow> nat \<Rightarrow> ((nat \<times> error option) \<times> 'c Conn \<times> byte list) option" where
  "ReadAtLeast r buf mn =
     (if length buf < mn then Some ((0, Some ErrShortBuffer), r, buf)
      else case ReadAtLeast_loop r buf mn 0 None of
        None \<Rightarrow> None
      | Some ((n, err), r', buf') \<Rightarrow>
          if n \<ge> mn then Some ((n, None), r', buf')
          else if n > 0 \<and> err = Some EOF then Some ((n, Some ErrUnexpectedEOF), r', buf')
          else Some ((n, err), r', buf'))"

definition ReadFull ::
  "'c Conn \<Rightarrow> byte list \<Rightarrow> ((nat \<times> error option) \<times> 'c Conn \<times> byte list) option" where
  "ReadFull r buf = ReadAtLeast r buf (length buf)"

section \<open>The protocol descriptor\<close>

text \<open>
  \<^verbatim>\<open>
  type PNProtocol struct {
      MaxPacketSize int
      n             int
      bo            binary.ByteOrder
      bf            BufferFactory
  }
  \<close>
  The three structs of the file share field names; the record fields carry the prefix
  \<open>p_\<close>, \<open>w_\<close> or \<open>r_\<close> of their struct. \<^verbatim>\<open>BufferFactory\<close> is declared in another file
  and only stored here: any type \<open>'bf\<close>.
\<close>

record 'bf PNProtocol =
  p_MaxPacketSize :: int
  p_n :: int
  p_bo :: ByteOrder
  p_bf :: 'bf

definition PacketN :: "int \<Rightarrow> ByteOrder \<Rightarrow> 'bf \<Rightarrow> 'bf PNProtocol outcome" where
  "PacketN n bo bf = Returns \<lparr>p_MaxPacketSize = 0, p_n = n, p_bo = bo, p_bf = bf\<rparr>"

definition BufferFactory :: "'bf PNProtocol \<Rightarrow> 'bf" where
  "BufferFactory p = p_bf p"

section \<open>The writer\<close>

text \<open>
  \<^verbatim>\<open>
  type PNWriter struct {
      MaxPacketSize int
      head          []byte
      encodeHead    func(int)
  }
  \<close>
  \<^verbatim>\<open>encodeHead\<close> is a closure over the writer: it stores the header of \<open>size\<close> into
  \<^verbatim>\<open>w.head\<close>. In the model it takes the scratch slice and returns it updated.
  \<^verbatim>\<open>make([]byte, n)\<close> panics at a negative length, before the \<^verbatim>\<open>switch\<close> is reached.
  (An allocation that the runtime cannot satisfy ends the call as well, without a
  writer; the model does not follow the runtime there.)
\<close>

record PNWriter =
  w_MaxPacketSize :: int
  w_head :: "byte list"
  w_encodeHead :: "int \<Rightarrow> byte list \<Rightarrow> byte list outcome"

definition NewPNWriter :: "int \<Rightarrow> ByteOrder \<Rightarrow> PNWriter outcome" where
  "NewPNWriter n byteOrder =
     (if n < 0 then Panics MakesliceLenOutOfRange
      else let head = replicate (nat n) (0 :: byte) in
        if n = 1 then
          Returns \<lparr>w_MaxPacketSize = 0, w_head = head,
            w_encodeHead = (\<lambda>sz h.
              if length h = 0 then Panics IndexOutOfRange
              else Returns (h[0 := word_of_int sz]))\<rparr>
        else if n = 2 then
          Returns \<lparr>w_MaxPacketSize = 0, w_head = head,
            w_encodeHead = (\<lambda>sz h. PutUint16 byteOrder h (word_of_int sz))\<rparr>
        else if n = 4 then
          Returns \<lparr>w_MaxPacketSize = 0, w_head = head,
            w_encodeHead = (\<lambda>sz h. PutUint32 byteOrder h (word_of_int sz))\<rparr>
        else if n = 8 then
          Returns \<lparr>w_MaxPacketSize = 0, w_head = head,
            w_encodeHead = (\<lambda>sz h. PutUint64 byteOrder h (word_of_int sz))\<rparr>
        else Panics UnsupportedPacketHeadSize)"

definition NewWriter :: "'bf PNProtocol \<Rightarrow> PNWriter outcome" where
  "NewWriter p =
     (case NewPNWriter (p_n p) (p_bo p) of
        Panics x \<Rightarrow> Panics x
      | Returns w \<Rightarrow> Returns (w\<lparr>w_MaxPacketSize := p_MaxPacketSize p\<rparr>))"

definition WritePacket ::
  "PNWriter \<Rightarrow> 'c Conn \<Rightarrow> OutBuffer \<Rightarrow> (error option \<times> PNWriter \<times> 'c Conn) outcome" where
  "WritePacket w conn buffer =
     (let sz = Len buffer in
      if w_MaxPacketSize w > 0 \<and> sz > w_MaxPacketSize w then
        Returns (Some PacketTooLargeError, w, conn)
      else case w_encodeHead w sz (w_head w) of
        Panics x \<Rightarrow> Panics x
      | Returns h \<Rightarrow>
          let w1 = w\<lparr>w_head := h\<rparr> in
          case Write conn (w_head w1) of
            ((_, err), conn1) \<Rightarrow>
              if err \<noteq> None then Returns (err, w1, conn1)
              else if sz = 0 then Returns (None, w1, conn1)
              else case Write conn1 (Get buffer) of
                ((_, err2), conn2) \<Rightarrow>
                  if err2 \<noteq> None then Returns (err2, w1, conn2)
                  else Returns (None, w1, conn2))"

section \<open>The reader\<close>

text \<open>
  \<^verbatim>\<open>
  type PNReader struct {
      MaxPacketSize int
      head          []byte
      decodeHead    func() int
  }
  \<close>
  \<^verbatim>\<open>decodeHead\<close> is a closure over the reader: it reads \<^verbatim>\<open>r.head\<close>. In the model it
  takes the scratch slice. A header of eight bytes with the top bit set decodes to a
  negative \<^verbatim>\<open>int\<close>; \<^verbatim>\<open>ReadPacket\<close> then passes both of its checks and calls
  \<^verbatim>\<open>Prepare\<close> with it.
\<close>

record PNReader =
  r_MaxPacketSize :: int
  r_head :: "byte list"
  r_decodeHead :: "byte list \<Rightarrow> int outcome"

definition NewPNReader :: "int \<Rightarrow> ByteOrder \<Rightarrow> PNReader outcome" where
  "NewPNReader n byteOrder =
     (if n < 0 then Panics MakesliceLenOutOfRange
      else let head = replicate (nat n) (0 :: byte) in
        if n = 1 then
          Returns \<lparr>r_MaxPacketSize = 0, r_head = head,
            r_decodeHead = (\<lambda>h.
              if length h = 0 then Panics IndexOutOfRange
              else Returns (uint (h ! 0)))\<rparr>
        else if n = 2 then
          Returns \<lparr>r_MaxPacketSize = 0, r_head = head,
            r_decodeHead = (\<lambda>h. map_outcome uint (Uint16 byteOrder h))\<rparr>
        else if n = 4 then
          Returns \<lparr>r_MaxPacketSize = 0, r_head = head,
            r_decodeHead = (\<lambda>h. map_outcome uint (Uint32 byteOrder h))\<rparr>
        else if n = 8 then
          Returns \<lparr>r_MaxPacketSize = 0, r_head = head,
            r_decodeHead = (\<lambda>h. map_outcome sint (Uint64 byteOrder h))\<rparr>
        else Panics UnsupportedPacketHeadSize)"

definition NewReader :: "'bf PNProtocol \<Rightarrow> PNReader outcome" where
  "NewReader p =
     (case NewPNReader (p_n p) (p_bo p) of
        Panics x \<Rightarrow> Panics x
      | Returns r \<Rightarrow> Returns (r\<lparr>r_MaxPacketSize := p_MaxPacketSize p\<rparr>))"

definition ReadPacket ::
  "PNReader \<Rightarrow> 'c Conn \<Rightarrow> InBuffer
     \<Rightarrow> (error option \<times> PNReader \<times> 'c Conn \<times> InBuffer) outcome option" where
  "ReadPacket r conn buffer =
     (case ReadFull conn (r_head r) of
        None \<Rightarrow> None
      | Some ((_, err), conn1, h) \<Rightarrow>
          let r1 = r\<lparr>r_head := h\<rparr> in
          if err \<noteq> None then Some (Returns (err, r1, conn1, buffer))
          else case r_decodeHead r1 (r_head r1) of
            Panics x \<Rightarrow> Some (Panics x)
          | Returns sz \<Rightarrow>
              if sz = 0 then Some (Returns (None, r1, conn1, buffer))
              else if r_MaxPacketSize r1 > 0 \<and> sz > r_MaxPacketSize r1 then
                Some (Returns (Some PacketTooLargeError, r1, conn1, buffer))
              else case Prepare sz buffer of
                Panics x \<Rightarrow> Some (Panics x)
              | Returns buffer1 \<Rightarrow>
                  (case ReadFull conn1 (Get buffer1) of
                     None \<Rightarrow> None
                   | Some ((_, err2), conn2, buffer2) \<Rightarrow>
                       if err2 \<noteq> None then Some (Returns (err2, r1, conn2, buffer2))
                       else Some (Returns (None, r1, conn2, buffer2))))"

section \<open>Writers and readers in use\<close>

text \<open>
  \<^verbatim>\<open>head\<close> and the closures are unexported: outside the package a writer comes from
  \<^verbatim>\<open>NewWriter\<close> (or \<^verbatim>\<open>NewPNWriter\<close> and an assignment to \<^verbatim>\<open>MaxPacketSize\<close>), and
  \<^verbatim>\<open>WritePacket\<close> only overwrites the contents of its scratch header. \<open>is_writer p w\<close>:
  \<open>w\<close> is what \<open>NewWriter p\<close> returned, after any number of calls. Likewise for
  readers.
\<close>

definition is_writer :: "'bf PNProtocol \<Rightarrow> PNWriter \<Rightarrow> bool" where
  "is_writer p w =
     (case NewWriter p of
        Panics x \<Rightarrow> False
      | Returns w0 \<Rightarrow> w = w0\<lparr>w_head := w_head w\<rparr> \<and> length (w_head w) = length (w_head w0))"

definition is_reader :: "'bf PNProtocol \<Rightarrow> PNReader \<Rightarrow> bool" where
  "is_reader p r =
     (case NewReader p of
        Panics x \<Rightarrow> False
      | Returns r0 \<Rightarrow> r = r0\<lparr>r_head := r_head r\<rparr> \<and> length (r_head r) = length (r_head r0))"

section \<open>A connection for concrete runs\<close>

text \<open>
  A scripted connection, for the runs on concrete inputs and for the byte stream between
  a writer and a reader. \<open>sent\<close> collects the bytes \<^verbatim>\<open>Write\<close> accepted. \<open>write_results\<close>
  scripts the next calls of \<^verbatim>\<open>Write\<close>: \<open>None\<close> accepts the bytes, \<open>Some e\<close> fails with
  \<open>e\<close> and accepts none; once the script is used up every \<^verbatim>\<open>Write\<close> succeeds.
  \<open>read_results\<close> is the incoming stream, as the fragments in which it arrives, each
  with the error reported along with its last byte. \<^verbatim>\<open>Read\<close> hands out the first
  fragment, or as much of it as the slice holds; at the end of the stream it reports
  \<open>EOF\<close>.
\<close>

record Script =
  sent :: "byte list"
  write_results :: "error option list"
  read_results :: "(byte list \<times> error option) list"

definition script_Write :: "Script \<Rightarrow> byte list \<Rightarrow> (int \<times> error option) \<times> Script" where
  "script_Write s b =
     (case write_results s of
        [] \<Rightarrow> ((int (length b), None), s\<lparr>sent := sent s @ b\<rparr>)
      | None # es \<Rightarrow> ((int (length b), None), s\<lparr>sent := sent s @ b, write_results := es\<rparr>)
      | Some e # es \<Rightarrow> ((0, Some e), s\<lparr>write_results := es\<rparr>))"

definition script_Read :: "Script \<Rightarrow> nat \<Rightarrow> (byte list \<times> error option) \<times> Script" where
  "script_Read s k =
     (case read_results s of
        [] \<Rightarrow> (([], Some EOF), s)
      | (ck, e) # rest \<Rightarrow>
          if length ck \<le> k then ((ck, e), s\<lparr>read_results := rest\<rparr>)
          else ((take k ck, None), s\<lparr>read_results := (drop k ck, e) # rest\<rparr>))"

definition ScriptConn :: "Script \<Rightarrow> Script Conn" where
  "ScriptConn s = \<lparr>conn_state = s, conn_Write = script_Write, conn_Read = script_Read\<rparr>"

definition outgoing :: "Script Conn" where
  "outgoing = ScriptConn \<lparr>sent = [], write_results = [], read_results = []\<rparr>"

definition incoming :: "byte list list \<Rightarrow> Script Conn" where
  "incoming frags =
     ScriptConn \<lparr>sent = [], write_results = [], read_results = map (\<lambda>ck. (ck, None)) frags\<rparr>"

definition unread :: "Script Conn \<Rightarrow> byte list" where
  "unread conn = concat (map fst (read_results (conn_state conn)))"

section \<open>Header words and their bytes\<close>

text \<open>A word is its low byte and the rest; the top byte of a word is all that is left.\<close>

lemma split8: "ucast (ucast v :: 8 word) OR push_bit 8 (drop_bit 8 v) = (v :: 'a::len word)"
proof (rule bit_word_eqI)
  fix n assume len: "n < LENGTH('a)"
  show "bit (ucast (ucast v :: 8 word) OR push_bit 8 (drop_bit 8 v)) n = bit v n"
  proof (cases "n < 8")
    case True with len show ?thesis by (auto simp: bit_simps)
  next
    case False
    then have "8 + (n - 8) = n" by simp
    with False len show ?thesis by (auto simp: bit_simps)
  qed
qed

lemma top8: "LENGTH('a::len) \<le> k + 8 \<Longrightarrow> ucast (ucast (drop_bit k v) :: 8 word) = drop_bit k (v  :: 'a::len word)"
  by (rule bit_word_eqI) (auto simp: bit_simps dest: bit_imp_le_length)

lemma join16: "(ucast (ucast v :: 8 word) :: 16 word) OR push_bit 8 (ucast (ucast (drop_bit 8 v) :: 8 word)) = v"
  using split8[of v] by (simp add: top8)

lemma join32: "(ucast (ucast v :: 8 word) :: 32 word) OR push_bit 8 (ucast (ucast (drop_bit 8 v) :: 8 word))
   OR push_bit 16 (ucast (ucast (drop_bit 16 v) :: 8 word)) OR push_bit 24 (ucast (ucast (drop_bit 24 v) :: 8 word)) = v"
proof -
  have "v = ucast (ucast v :: 8 word) OR push_bit 8 (drop_bit 8 v)" by (simp add: split8)
  also have "drop_bit 8 v = ucast (ucast (drop_bit 8 v) :: 8 word) OR push_bit 8 (drop_bit 16 v)"
    using split8[of "drop_bit 8 v"] by simp
  also have "drop_bit 16 v = ucast (ucast (drop_bit 16 v) :: 8 word) OR push_bit 8 (drop_bit 24 v)"
    using split8[of "drop_bit 16 v"] by simp
  also have "drop_bit 24 v = ucast (ucast (drop_bit 24 v) :: 8 word)"
    by (simp add: top8)
  finally show ?thesis by (simp add: push_bit_or ac_simps)
qed

lemma join64: "(ucast (ucast v :: 8 word) :: 64 word) OR push_bit 8 (ucast (ucast (drop_bit 8 v) :: 8 word))
   OR push_bit 16 (ucast (ucast (drop_bit 16 v) :: 8 word)) OR push_bit 24 (ucast (ucast (drop_bit 24 v) :: 8 word)) 
   OR push_bit 32 (ucast (ucast (drop_bit 32 v) :: 8 word)) OR push_bit 40 (ucast (ucast (drop_bit 40 v) :: 8 word)) 
   OR push_bit 48 (ucast (ucast (drop_bit 48 v) :: 8 word)) OR push_bit 56 (ucast (ucast (drop_bit 56 v) :: 8 word)) = v"
proof -
  have "v = ucast (ucast v :: 8 word) OR push_bit 8 (drop_bit 8 v)" by (simp add: split8)
  also have "drop_bit 8 v = ucast (ucast (drop_bit 8 v) :: 8 word) OR push_bit 8 (drop_bit 16 v)"
    using split8[of "drop_bit 8 v"] by simp
  also have "drop_bit 16 v = ucast (ucast (drop_bit 16 v) :: 8 word) OR push_bit 8 (drop_bit 24 v)"
    using split8[of "drop_bit 16 v"] by simp
  also have "drop_bit 24 v = ucast (ucast (drop_bit 24 v) :: 8 word) OR push_bit 8 (drop_bit 32 v)"
    using split8[of "drop_bit 24 v"] by simp
  also have "drop_bit 32 v = ucast (ucast (drop_bit 32 v) :: 8 word) OR push_bit 8 (drop_bit 40 v)"
    using split8[of "drop_bit 32 v"] by simp
  also have "drop_bit 40 v = ucast (ucast (drop_bit 40 v) :: 8 word) OR push_bit 8 (drop_bit 48 v)"
    using split8[of "drop_bit 40 v"] by simp
  also have "drop_bit 48 v = ucast (ucast (drop_bit 48 v) :: 8 word) OR push_bit 8 (drop_bit 56 v)"
    using split8[of "drop_bit 48 v"] by simp
  also have "drop_bit 56 v = ucast (ucast (drop_bit 56 v) :: 8 word)"
    by (simp add: top8)
  finally show ?thesis by (simp add: push_bit_or ac_simps)
qed



lemma Uint16_PutUint16:
  "length b = 2 \<Longrightarrow> \<exists>b'. PutUint16 bo b v = Returns b' \<and> length b' = 2 \<and> Uint16 bo b' = Returns v"
  by (cases bo) (simp_all add: PutUint16_def Uint16_def join16)

lemma Uint32_PutUint32:
  "length b = 4 \<Longrightarrow> \<exists>b'. PutUint32 bo b v = Returns b' \<and> length b' = 4 \<and> Uint32 bo b' = Returns v"
  by (cases bo) (simp_all add: PutUint32_def Uint32_def join32)

lemma Uint64_PutUint64:
  "length b = 8 \<Longrightarrow> \<exists>b'. PutUint64 bo b v = Returns b' \<and> length b' = 8 \<and> Uint64 bo b' = Returns v"
  by (cases bo) (simp_all add: PutUint64_def Uint64_def join64)

lemma len1: "length h = Suc 0 \<Longrightarrow> \<exists>a. h = [a]"
  by (auto simp: length_Suc_conv)
lemma len2: "length h = 2 \<Longrightarrow> \<exists>a b. h = [a, b]"
  by (auto simp: eval_nat_numeral length_Suc_conv)
lemma len4: "length h = 4 \<Longrightarrow> \<exists>a b c d. h = [a, b, c, d]"
  by (auto simp: eval_nat_numeral length_Suc_conv)
lemma len8: "length h = 8 \<Longrightarrow> \<exists>a b c d e f g i. h = [a, b, c, d, e, f, g, i]"
  by (auto simp: eval_nat_numeral length_Suc_conv)

lemma NewPNWriter_Returns:
  "NewPNWriter n bo = Returns w \<Longrightarrow> (n = 1 \<or> n = 2 \<or> n = 4 \<or> n = 8) \<and> w_head w = replicate (nat n) 0 \<and> w_MaxPacketSize w = 0"
  by (auto simp: NewPNWriter_def Let_def split: if_splits)

lemma is_writerD:
  assumes "is_writer p w"
  shows "p_n p = 1 \<or> p_n p = 2 \<or> p_n p = 4 \<or> p_n p = 8"
    and "length (w_head w) = nat (p_n p)"
    and "w_MaxPacketSize w = p_MaxPacketSize p"
proof -
  from assms obtain w0 where 0: "NewWriter p = Returns w0" and 1: "w = w0\<lparr>w_head := w_head w\<rparr>"
    and 2: "length (w_head w) = length (w_head w0)"
    by (auto simp: is_writer_def split: outcome.splits)
  from 0 obtain w1 where 3: "NewPNWriter (p_n p) (p_bo p) = Returns w1" and 4: "w0 = w1\<lparr>w_MaxPacketSize := p_MaxPacketSize p\<rparr>"
    by (auto simp: NewWriter_def split: outcome.splits)
  from NewPNWriter_Returns[OF 3] 4 2 show "p_n p = 1 \<or> p_n p = 2 \<or> p_n p = 4 \<or> p_n p = 8"
    and "length (w_head w) = nat (p_n p)" by auto
  from 1 have "w_MaxPacketSize w = w_MaxPacketSize w0" by (metis PNWriter.select_convs(1) PNWriter.surjective PNWriter.update_convs(2))
  with 4 show "w_MaxPacketSize w = p_MaxPacketSize p" by simp
qed

lemma is_writer_encodeHead:
  assumes "is_writer p w"
  shows "w_encodeHead w =
     (if p_n p = 1 then (\<lambda>sz h. if length h = 0 then Panics IndexOutOfRange else Returns (h[0 := word_of_int sz]))
      else if p_n p = 2 then (\<lambda>sz h. PutUint16 (p_bo p) h (word_of_int sz))
      else if p_n p = 4 then (\<lambda>sz h. PutUint32 (p_bo p) h (word_of_int sz))
      else (\<lambda>sz h. PutUint64 (p_bo p) h (word_of_int sz)))"
proof -
  from assms obtain w0 where 0: "NewWriter p = Returns w0" and 1: "w = w0\<lparr>w_head := w_head w\<rparr>"
    by (auto simp: is_writer_def split: outcome.splits)
  from 1 have "w_encodeHead w = w_encodeHead w0"
    by (metis PNWriter.select_convs(3) PNWriter.surjective PNWriter.update_convs(2))
  with 0 show ?thesis
    by (auto simp: NewWriter_def NewPNWriter_def Let_def split: outcome.splits if_splits)
qed


lemma NewPNReader_Returns:
  "NewPNReader n bo = Returns r \<Longrightarrow> (n = 1 \<or> n = 2 \<or> n = 4 \<or> n = 8) \<and> r_head r = replicate (nat n) 0 \<and> r_MaxPacketSize r = 0"
  by (auto simp: NewPNReader_def Let_def split: if_splits)

lemma is_readerD:
  assumes "is_reader p r"
  shows "p_n p = 1 \<or> p_n p = 2 \<or> p_n p = 4 \<or> p_n p = 8"
    and "length (r_head r) = nat (p_n p)"
    and "r_MaxPacketSize r = p_MaxPacketSize p"
proof -
  from assms obtain r0 where 0: "NewReader p = Returns r0" and 1: "r = r0\<lparr>r_head := r_head r\<rparr>"
    and 2: "length (r_head r) = length (r_head r0)"
    by (auto simp: is_reader_def split: outcome.splits)
  from 0 obtain r1 where 3: "NewPNReader (p_n p) (p_bo p) = Returns r1" and 4: "r0 = r1\<lparr>r_MaxPacketSize := p_MaxPacketSize p\<rparr>"
    by (auto simp: NewReader_def split: outcome.splits)
  from NewPNReader_Returns[OF 3] 4 2 show "p_n p = 1 \<or> p_n p = 2 \<or> p_n p = 4 \<or> p_n p = 8"
    and "length (r_head r) = nat (p_n p)" by auto
  from 1 have "r_MaxPacketSize r = r_MaxPacketSize r0" by (metis PNReader.select_convs(1) PNReader.surjective PNReader.update_convs(2))
  with 4 show "r_MaxPacketSize r = p_MaxPacketSize p" by simp
qed

lemma is_reader_decodeHead:
  assumes "is_reader p r"
  shows "r_decodeHead r =
     (if p_n p = 1 then (\<lambda>h. if length h = 0 then Panics IndexOutOfRange else Returns (uint (h ! 0)))
      else if p_n p = 2 then (\<lambda>h. map_outcome uint (Uint16 (p_bo p) h))
      else if p_n p = 4 then (\<lambda>h. map_outcome uint (Uint32 (p_bo p) h))
      else (\<lambda>h. map_outcome sint (Uint64 (p_bo p) h)))"
proof -
  from assms obtain r0 where 0: "NewReader p = Returns r0" and 1: "r = r0\<lparr>r_head := r_head r\<rparr>"
    by (auto simp: is_reader_def split: outcome.splits)
  from 1 have "r_decodeHead r = r_decodeHead r0"
    by (metis PNReader.select_convs(3) PNReader.surjective PNReader.update_convs(2))
  with 0 show ?thesis
    by (auto simp: NewReader_def NewPNReader_def Let_def split: outcome.splits if_splits)
qed

text \<open>The value a reader decodes from the header a writer encoded for sz.\<close>

lemma encode_decode:
  assumes w: "is_writer p w" and r: "is_reader p r" and h0: "length h0 = nat (p_n p)"
  shows "\<exists>h. w_encodeHead w sz h0 = Returns h \<and> length h = nat (p_n p) \<and>
    r_decodeHead r h = Returns (if p_n p = 8 then sint (word_of_int sz :: 64 word)
                                else sz mod 2 ^ (8 * nat (p_n p)))"
proof -
  consider "p_n p = 1" | "p_n p = 2" | "p_n p = 4" | "p_n p = 8"
    using is_writerD(1)[OF w] by blast
  then show ?thesis
  proof cases
    case 1
    with h0 obtain a where "h0 = [a]" using len1[of h0] by auto
    with 1 show ?thesis
      by (simp add: is_writer_encodeHead[OF w] is_reader_decodeHead[OF r] uint_word_of_int)
  next
    case 2
    with h0 have "length h0 = 2" by simp
    from Uint16_PutUint16[OF this, of "p_bo p" "word_of_int sz"] 2 show ?thesis
      by (auto simp: is_writer_encodeHead[OF w] is_reader_decodeHead[OF r] uint_word_of_int)
  next
    case 3
    with h0 have "length h0 = 4" by simp
    from Uint32_PutUint32[OF this, of "p_bo p" "word_of_int sz"] 3 show ?thesis
      by (auto simp: is_writer_encodeHead[OF w] is_reader_decodeHead[OF r] uint_word_of_int)
  next
    case 4
    with h0 have "length h0 = 8" by simp
    from Uint64_PutUint64[OF this, of "p_bo p" "word_of_int sz"] 4 show ?thesis
      by (auto simp: is_writer_encodeHead[OF w] is_reader_decodeHead[OF r])
  qed
qed

lemma encode_scratch:
  assumes w: "is_writer p w" and h0: "length h0 = nat (p_n p)" and h1: "length h1 = nat (p_n p)"
  shows "w_encodeHead w sz h0 = w_encodeHead w sz h1"
proof -
  consider "p_n p = 1" | "p_n p = 2" | "p_n p = 4" | "p_n p = 8"
    using is_writerD(1)[OF w] by blast
  then show ?thesis
  proof cases
    case 1
    with h0 h1 obtain a b where "h0 = [a]" "h1 = [b]" using len1[of h0] len1[of h1] by auto
    with 1 show ?thesis by (simp add: is_writer_encodeHead[OF w])
  next
    case 2
    with h0 h1 obtain a b c d where "h0 = [a, b]" "h1 = [c, d]" using len2[of h0] len2[of h1] by auto
    with 2 show ?thesis by (cases "p_bo p") (simp_all add: is_writer_encodeHead[OF w] PutUint16_def)
  next
    case 3
    with h0 h1 have "length h0 = 4" "length h1 = 4" by simp_all
    then obtain a b c d a' b' c' d' where "h0 = [a, b, c, d]" "h1 = [a', b', c', d']"
      using len4[of h0] len4[of h1] by auto
    with 3 show ?thesis by (cases "p_bo p") (simp_all add: is_writer_encodeHead[OF w] PutUint32_def)
  next
    case 4
    with h0 h1 have "length h0 = 8" "length h1 = 8" by simp_all
    then obtain a b c d e f g i a' b' c' d' e' f' g' i' where
      "h0 = [a, b, c, d, e, f, g, i]" "h1 = [a', b', c', d', e', f', g', i']"
      using len8[of h0] len8[of h1] by auto
    with 4 show ?thesis by (cases "p_bo p") (simp_all add: is_writer_encodeHead[OF w] PutUint64_def)
  qed
qed

lemma encode_zero:
  assumes w: "is_writer p w" and h0: "length h0 = nat (p_n p)"
  shows "w_encodeHead w 0 h0 = Returns (replicate (nat (p_n p)) 0)"
proof -
  consider "p_n p = 1" | "p_n p = 2" | "p_n p = 4" | "p_n p = 8"
    using is_writerD(1)[OF w] by blast
  then show ?thesis
  proof cases
    case 1
    with h0 obtain a where "h0 = [a]" using len1[of h0] by auto
    with 1 show ?thesis by (simp add: is_writer_encodeHead[OF w])
  next
    case 2
    with h0 obtain a b where "h0 = [a, b]" using len2[of h0] by auto
    with 2 show ?thesis by (cases "p_bo p") (simp_all add: is_writer_encodeHead[OF w] PutUint16_def eval_nat_numeral)
  next
    case 3
    with h0 have "length h0 = 4" by simp
    then obtain a b c d where "h0 = [a, b, c, d]" using len4[of h0] by auto
    with 3 show ?thesis by (cases "p_bo p") (simp_all add: is_writer_encodeHead[OF w] PutUint32_def eval_nat_numeral)
  next
    case 4
    with h0 have "length h0 = 8" by simp
    then obtain a b c d e f g i where "h0 = [a, b, c, d, e, f, g, i]" using len8[of h0] by auto
    with 4 show ?thesis by (cases "p_bo p") (simp_all add: is_writer_encodeHead[OF w] PutUint64_def eval_nat_numeral)
  qed
qed

section \<open>\<^verbatim>\<open>ReadFull\<close> on a stream that arrives in fragments\<close>

lemma Read_incoming_Nil:
  "read_results s = [] \<Longrightarrow> Read (ScriptConn s) k = (([], Some EOF), ScriptConn s)"
  by (simp add: Read_def ScriptConn_def script_Read_def)

lemma Read_incoming_Cons:
  "read_results s = (ck, e) # rest \<Longrightarrow>
   Read (ScriptConn s) k =
     (if length ck \<le> k then ((ck, e), ScriptConn (s\<lparr>read_results := rest\<rparr>))
      else ((take k ck, None), ScriptConn (s\<lparr>read_results := (drop k ck, e) # rest\<rparr>)))"
  by (simp add: Read_def ScriptConn_def script_Read_def)

lemma read_results_same: "read_results s = x \<Longrightarrow> s\<lparr>read_results := x\<rparr> = s"
  by auto

lemma loop_done:
  "\<not> n < mn \<Longrightarrow> ReadAtLeast_loop r buf mn n err = Some ((n, err), r, buf)"
  by (subst ReadAtLeast_loop.simps) simp

lemma loop_err:
  "ReadAtLeast_loop r buf mn n (Some e) = Some ((n, Some e), r, buf)"
  by (subst ReadAtLeast_loop.simps) simp

lemma loop_step:
  "n < mn \<Longrightarrow> Read r (length buf - n) = ((p, err'), r') \<Longrightarrow>
   ReadAtLeast_loop r buf mn n None =
     ReadAtLeast_loop r' (take n buf @ p @ drop (n + length p) buf) mn (n + length p) err'"
  by (subst ReadAtLeast_loop.simps) simp

lemma loop_incoming:
  "read_results s = map (\<lambda>ck. (ck, None)) frags \<Longrightarrow> concat frags = ys @ rest \<Longrightarrow>
   n + length ys = length buf \<Longrightarrow>
   \<exists>frags'. ReadAtLeast_loop (ScriptConn s) buf (length buf) n None =
       Some ((length buf, None), ScriptConn (s\<lparr>read_results := map (\<lambda>ck. (ck, None)) frags'\<rparr>), take n buf @ ys)
     \<and> concat frags' = rest"
proof (induction frags arbitrary: s ys n buf)
  case Nil
  then have "ys = []" "n = length buf" by auto
  with Nil show ?case by (auto simp: loop_done read_results_same intro!: exI[of _ "[]"])
next
  case (Cons ck frags)
  show ?case
  proof (cases "n < length buf")
    case False
    with Cons.prems(3) have "length ys = 0" "n = length buf" by linarith+
    then have "ys = []" "n = length buf" by simp_all
    with Cons.prems show ?thesis
      by (auto simp: loop_done read_results_same intro!: exI[of _ "ck # frags"])
  next
    case True
    let ?k = "length buf - n"
    from Cons.prems have ys: "length ys = ?k" by simp
    show ?thesis
    proof (cases "length ck \<le> ?k")
      case le: True
      from Cons.prems(2) le ys have ck: "ck = take (length ck) ys"
        by (metis append_eq_append_conv_if concat.simps(2) append_eq_conv_conj)
      define ys' where "ys' = drop (length ck) ys"
      have ys_eq: "ys = ck @ ys'" using ck ys'_def by (metis append_take_drop_id)
      with Cons.prems(2) have rest: "concat frags = ys' @ rest" by simp
      let ?s' = "s\<lparr>read_results := map (\<lambda>ck. (ck, None)) frags\<rparr>"
      let ?buf' = "take n buf @ ck @ drop (n + length ck) buf"
      have rd: "Read (ScriptConn s) ?k = ((ck, None), ScriptConn ?s')"
        using Cons.prems(1) le by (simp add: Read_incoming_Cons)
      have len': "length ?buf' = length buf" using le True by simp
      have "n + length ck + length ys' = length ?buf'"
        using ys ys_eq True len' by simp
      from Cons.IH[of ?s' ys' "n + length ck" ?buf', OF _ rest this]
      obtain frags' where
        "ReadAtLeast_loop (ScriptConn ?s') ?buf' (length ?buf') (n + length ck) None =
           Some ((length ?buf', None), ScriptConn (?s'\<lparr>read_results := map (\<lambda>ck. (ck, None)) frags'\<rparr>),
                 take (n + length ck) ?buf' @ ys')" and c': "concat frags' = rest"
        by auto
      moreover have "take (n + length ck) ?buf' @ ys' = take n buf @ ys"
        using True ys_eq by simp
      ultimately have "ReadAtLeast_loop (ScriptConn s) buf (length buf) n None =
           Some ((length buf, None), ScriptConn (s\<lparr>read_results := map (\<lambda>ck. (ck, None)) frags'\<rparr>),
                 take n buf @ ys)"
        using loop_step[OF True rd] len' by simp
      with c' show ?thesis by blast
    next
      case gt: False
      from Cons.prems(2) gt ys have y: "ys = take ?k ck" and r: "rest = drop ?k ck @ concat frags"
        by (auto simp: append_eq_append_conv_if)
      let ?s' = "s\<lparr>read_results := map (\<lambda>ck. (ck, None)) (drop ?k ck # frags)\<rparr>"
      have rd: "Read (ScriptConn s) ?k = ((take ?k ck, None), ScriptConn ?s')"
        using Cons.prems(1) gt by (simp add: Read_incoming_Cons)
      have "ReadAtLeast_loop (ScriptConn s) buf (length buf) n None =
           Some ((length buf, None), ScriptConn ?s', take n buf @ ys)"
        using loop_step[OF True rd] gt True y by (simp add: loop_done min_def)
      with r show ?thesis by (intro exI[of _ "drop ?k ck # frags"]) simp
    qed
  qed
qed

lemma ReadFull_incoming:
  assumes "read_results s = map (\<lambda>ck. (ck, None)) frags" and "concat frags = ys @ rest"
    and "length ys = length buf"
  shows "\<exists>frags'. ReadFull (ScriptConn s) buf =
       Some ((length buf, None), ScriptConn (s\<lparr>read_results := map (\<lambda>ck. (ck, None)) frags'\<rparr>), ys)
     \<and> concat frags' = rest"
proof -
  from loop_incoming[OF assms(1,2), of 0 buf] assms(3)
  obtain frags' where "ReadAtLeast_loop (ScriptConn s) buf (length buf) 0 None =
       Some ((length buf, None), ScriptConn (s\<lparr>read_results := map (\<lambda>ck. (ck, None)) frags'\<rparr>), ys)"
     and "concat frags' = rest" by auto
  then show ?thesis by (auto simp: ReadFull_def ReadAtLeast_def)
qed

lemma loop_result:
  assumes "ReadAtLeast_loop r buf mn n err = Some y"
  shows "(err \<noteq> None \<longrightarrow> y = ((n, err), r, buf)) \<and>
     (err = None \<longrightarrow> snd (fst y) \<noteq> None \<longrightarrow>
        (\<exists>c0 m p. Read c0 m = ((p, snd (fst y)), fst (snd y))))"
proof (rule ReadAtLeast_loop.raw_induct[OF _ assms])
  fix loop :: "'a Conn \<Rightarrow> byte list \<Rightarrow> nat \<Rightarrow> nat \<Rightarrow> error option
     \<Rightarrow> ((nat \<times> error option) \<times> 'a Conn \<times> byte list) option"
  fix r buf mn n err y
  assume IH: "\<And>r buf mn n err y. loop r buf mn n err = Some y \<Longrightarrow>
     (err \<noteq> None \<longrightarrow> y = ((n, err), r, buf)) \<and>
     (err = None \<longrightarrow> snd (fst y) \<noteq> None \<longrightarrow>
        (\<exists>c0 m p. Read c0 m = ((p, snd (fst y)), fst (snd y))))"
  assume body: "(if n < mn \<and> err = None
      then case Read r (length buf - n) of
           ((p, err'), r') \<Rightarrow>
             loop r' (take n buf @ p @ drop (n + length p) buf) mn (n + length p) err'
      else Some ((n, err), r, buf)) = Some y"
  show "(err \<noteq> None \<longrightarrow> y = ((n, err), r, buf)) \<and>
     (err = None \<longrightarrow> snd (fst y) \<noteq> None \<longrightarrow>
        (\<exists>c0 m p. Read c0 m = ((p, snd (fst y)), fst (snd y))))"
  proof (cases "n < mn \<and> err = None")
    case False
    with body show ?thesis by auto
  next
    case True
    obtain p err' r' where rd: "Read r (length buf - n) = ((p, err'), r')"
      by (metis prod.exhaust)
    with True body
    have call: "loop r' (take n buf @ p @ drop (n + length p) buf) mn (n + length p) err' = Some y"
      by simp
    note step = IH[OF call]
    show ?thesis
    proof (cases err')
      case None
      with step True show ?thesis by simp
    next
      case (Some e)
      with step have "y = ((n + length p, err'), r', take n buf @ p @ drop (n + length p) buf)"
        by simp
      with rd True show ?thesis by auto
    qed
  qed
qed

lemma ReadFull_error:
  assumes "ReadFull c buf = Some ((k, Some e), c', buf')"
  shows "k < length buf \<and>
    (\<exists>c0 m p e0. Read c0 m = ((p, Some e0), c') \<and>
       e = (if e0 = EOF \<and> 0 < k then ErrUnexpectedEOF else e0))"
proof -
  from assms obtain n err where
    loop: "ReadAtLeast_loop c buf (length buf) 0 None = Some ((n, err), c', buf')"
    and res: "(if n \<ge> length buf then (n, None)
               else if n > 0 \<and> err = Some EOF then (n, Some ErrUnexpectedEOF)
               else (n, err)) = (k, Some e)"
    by (auto simp: ReadFull_def ReadAtLeast_def split: option.splits if_splits)
  from res have k: "k = n" "n < length buf" by (auto split: if_splits)
  show ?thesis
  proof (cases "0 < n \<and> err = Some EOF")
    case True
    with res k have e: "e = ErrUnexpectedEOF" by simp
    from loop_result[OF loop] True obtain c0 m p where "Read c0 m = ((p, Some EOF), c')"
      by auto
    with k e True show ?thesis by (intro conjI exI[of _ c0] exI[of _ m] exI[of _ p] exI[of _ EOF]) auto
  next
    case False
    with res k have err: "err = Some e" by simp
    from loop_result[OF loop] err obtain c0 m p where "Read c0 m = ((p, Some e), c')"
      by auto
    with k err False show ?thesis by (intro conjI exI[of _ c0] exI[of _ m] exI[of _ p] exI[of _ e]) auto
  qed
qed

lemma ReadFull_first_error:
  assumes "Read c (length buf) = ((p, Some e0), c1)" and "length p < length buf"
  shows "ReadFull c buf =
    Some ((length p, Some (if e0 = EOF \<and> p \<noteq> [] then ErrUnexpectedEOF else e0)), c1,
          p @ drop (length p) buf)"
proof -
  from assms(2) have "0 < length buf" by (cases buf) auto
  from loop_step[OF this, of c buf p "Some e0" c1] assms(1)
  have "ReadAtLeast_loop c buf (length buf) 0 None =
     Some ((length p, Some e0), c1, p @ drop (length p) buf)"
    by (simp add: loop_err)
  with assms(2) show ?thesis
    by (auto simp: ReadFull_def ReadAtLeast_def)
qed

section \<open>One frame on the scripted connection\<close>

lemma Write_script_ok:
  "write_results s = [] \<Longrightarrow>
   Write (ScriptConn s) b = ((int (length b), None), ScriptConn (s\<lparr>sent := sent s @ b\<rparr>))"
  by (simp add: Write_def ScriptConn_def script_Write_def)

lemma WritePacket_script:
  assumes "w_encodeHead w (Len buffer) (w_head w) = Returns h"
    and "\<not> (0 < w_MaxPacketSize w \<and> w_MaxPacketSize w < Len buffer)"
    and "write_results s = []"
  shows "WritePacket w (ScriptConn s) buffer =
    Returns (None, w\<lparr>w_head := h\<rparr>, ScriptConn (s\<lparr>sent := sent s @ h @ buffer\<rparr>))"
  using assms by (auto simp: WritePacket_def Let_def Write_script_ok Len_def Get_def)

lemma ReadPacket_frame:
  assumes r: "is_reader p r"
    and stream: "concat frags = hdr @ payload @ rest" and hdr: "length hdr = nat (p_n p)"
    and L: "r_decodeHead r hdr = Returns (int (length payload))"
    and ne: "payload \<noteq> []"
    and M: "\<not> (0 < p_MaxPacketSize p \<and> p_MaxPacketSize p < int (length payload))"
  shows "\<exists>conn'. ReadPacket r (incoming frags) buffer =
      Some (Returns (None, r\<lparr>r_head := hdr\<rparr>, conn', payload))
    \<and> unread conn' = rest"
proof -
  let ?ev = "map (\<lambda>ck. (ck, None :: error option))"
  let ?c = "\<lambda>fs. ScriptConn \<lparr>sent = [], write_results = [], read_results = ?ev fs\<rparr>"
  have len: "length hdr = length (r_head r)" using hdr is_readerD(2)[OF r] by simp
  from ReadFull_incoming[of "conn_state (incoming frags)" frags hdr "payload @ rest" "r_head r"]
    stream len
  obtain frags1 where rf1: "ReadFull (incoming frags) (r_head r) =
       Some ((length (r_head r), None), ?c frags1, hdr)"
     and c1: "concat frags1 = payload @ rest"
    by (auto simp: incoming_def ScriptConn_def)
  let ?b1 = "replicate (length payload) (0 :: byte)"
  from ReadFull_incoming[of "conn_state (?c frags1)" frags1 payload rest ?b1] c1
  obtain frags2 where rf2: "ReadFull (?c frags1) ?b1 =
       Some ((length payload, None), ?c frags2, payload)"
     and c2: "concat frags2 = rest"
    by (auto simp: ScriptConn_def)
  have "unread (?c frags2) = rest"
    using c2 by (simp add: unread_def ScriptConn_def comp_def)
  moreover have "ReadPacket r (incoming frags) buffer =
      Some (Returns (None, r\<lparr>r_head := hdr\<rparr>, ?c frags2, payload))"
    using rf1 rf2 L M ne is_readerD(3)[OF r] by (simp add: ReadPacket_def Prepare_def Get_def Let_def)
  ultimately show ?thesis by blast
qed

lemma ReadPacket_frame_empty:
  assumes r: "is_reader p r"
    and stream: "concat frags = hdr @ rest" and hdr: "length hdr = nat (p_n p)"
    and L: "r_decodeHead r hdr = Returns 0"
  shows "\<exists>conn'. ReadPacket r (incoming frags) buffer =
      Some (Returns (None, r\<lparr>r_head := hdr\<rparr>, conn', buffer))
    \<and> unread conn' = rest"
proof -
  let ?ev = "map (\<lambda>ck. (ck, None :: error option))"
  let ?c = "\<lambda>fs. ScriptConn \<lparr>sent = [], write_results = [], read_results = ?ev fs\<rparr>"
  have len: "length hdr = length (r_head r)" using hdr is_readerD(2)[OF r] by simp
  from ReadFull_incoming[of "conn_state (incoming frags)" frags hdr rest "r_head r"]
    stream len
  obtain frags1 where rf1: "ReadFull (incoming frags) (r_head r) =
       Some ((length (r_head r), None), ?c frags1, hdr)"
     and c1: "concat frags1 = rest"
    by (auto simp: incoming_def ScriptConn_def)
  have "unread (?c frags1) = rest"
    using c1 by (simp add: unread_def ScriptConn_def comp_def)
  moreover have "ReadPacket r (incoming frags) buffer =
      Some (Returns (None, r\<lparr>r_head := hdr\<rparr>, ?c frags1, buffer))"
    using rf1 L by (simp add: ReadPacket_def)
  ultimately show ?thesis by blast
qed

text \<open>What the reader decodes is the payload length, when the width can hold it.\<close>

lemma decoded_length:
  assumes n: "n = 1 \<or> n = 2 \<or> n = 4 \<or> n = 8" and "0 \<le> L" "L < 2 ^ (8 * nat n)" "L \<le> maxInt"
  shows "(if n = 8 then sint (word_of_int L :: 64 word) else L mod 2 ^ (8 * nat n)) = L"
proof (cases "n = 8")
  case True
  have "sint (word_of_int L :: 64 word) = L"
    using assms by (simp add: maxInt_def sint_sbintrunc' signed_take_bit_int_eq_self)
  with True show ?thesis by simp
next
  case False
  with assms show ?thesis by simp
qed

lemma WritePacket_results:
  assumes "\<not> (0 < w_MaxPacketSize w \<and> w_MaxPacketSize w < Len buffer)"
    and "w_encodeHead w (Len buffer) (w_head w) = Returns h"
    and "Write conn h = ((k1, e1), conn1)"
    and "Write conn1 (Get buffer) = ((k2, e2), conn2)"
  shows "WritePacket w conn buffer =
     Returns (if e1 \<noteq> None then (e1, w\<lparr>w_head := h\<rparr>, conn1)
              else if Len buffer = 0 then (None, w\<lparr>w_head := h\<rparr>, conn1)
              else (e2, w\<lparr>w_head := h\<rparr>, conn2))"
  using assms by (auto simp: WritePacket_def Let_def)

lemma ReadPacket_header_error:
  assumes "ReadFull conn (r_head r) = Some ((k, Some e), conn1, h)"
  shows "ReadPacket r conn buffer = Some (Returns (Some e, r\<lparr>r_head := h\<rparr>, conn1, buffer))"
  using assms by (simp add: ReadPacket_def)

lemma ReadPacket_payload_error:
  assumes "ReadFull conn (r_head r) = Some ((k1, None), conn1, h)"
    and "r_decodeHead r h = Returns sz" and "sz \<noteq> 0"
    and "\<not> (0 < r_MaxPacketSize r \<and> r_MaxPacketSize r < sz)"
    and "Prepare sz buffer = Returns buffer1"
    and "ReadFull conn1 (Get buffer1) = Some ((k2, Some e), conn2, buffer2)"
  shows "ReadPacket r conn buffer = Some (Returns (Some e, r\<lparr>r_head := h\<rparr>, conn2, buffer2))"
  using assms by (auto simp: ReadPacket_def Let_def)

section \<open>Writers and readers stay what they are\<close>

text \<open>
  \<^verbatim>\<open>ReadFull\<close> stores into the slice it is given and never changes its length; the two
  transactions change nothing of a writer or a reader but the contents of the scratch
  header. So \<open>is_writer\<close> and \<open>is_reader\<close> hold of a fresh object and after every call.
\<close>

lemma loop_length:
  assumes "ReadAtLeast_loop r buf mn n err = Some y"
  shows "n \<le> length buf \<longrightarrow> length (snd (snd y)) = length buf"
proof (rule ReadAtLeast_loop.raw_induct[OF _ assms])
  fix loop :: "'a Conn \<Rightarrow> byte list \<Rightarrow> nat \<Rightarrow> nat \<Rightarrow> error option
     \<Rightarrow> ((nat \<times> error option) \<times> 'a Conn \<times> byte list) option"
  fix r buf mn n err y
  assume IH: "\<And>r buf mn n err y. loop r buf mn n err = Some y \<Longrightarrow>
     n \<le> length buf \<longrightarrow> length (snd (snd y)) = length buf"
  assume body: "(if n < mn \<and> err = None
      then case Read r (length buf - n) of
           ((p, err'), r') \<Rightarrow>
             loop r' (take n buf @ p @ drop (n + length p) buf) mn (n + length p) err'
      else Some ((n, err), r, buf)) = Some y"
  show "n \<le> length buf \<longrightarrow> length (snd (snd y)) = length buf"
  proof (cases "n < mn \<and> err = None")
    case False
    with body show ?thesis by auto
  next
    case True
    obtain p err' r' where rd: "Read r (length buf - n) = ((p, err'), r')"
      by (metis prod.exhaust)
    then have p: "length p \<le> length buf - n"
      by (auto simp: Read_def split: prod.splits)
    from rd True body
    have call: "loop r' (take n buf @ p @ drop (n + length p) buf) mn (n + length p) err' = Some y"
      by simp
    from IH[OF call] p show ?thesis by auto
  qed
qed

lemma ReadFull_length:
  "ReadFull c buf = Some ((k, e), c', buf') \<Longrightarrow> length buf' = length buf"
  by (auto simp: ReadFull_def ReadAtLeast_def split: option.splits if_splits dest: loop_length)

lemma NewWriter_is_writer: "NewWriter p = Returns w \<Longrightarrow> is_writer p w"
  by (simp add: is_writer_def)

lemma NewReader_is_reader: "NewReader p = Returns r \<Longrightarrow> is_reader p r"
  by (simp add: is_reader_def)

lemma is_writer_head:
  assumes "is_writer p w" and "length h = length (w_head w)"
  shows "is_writer p (w\<lparr>w_head := h\<rparr>)"
proof -
  from assms(1) obtain w0 where 0: "NewWriter p = Returns w0" and 1: "w = w0\<lparr>w_head := w_head w\<rparr>"
    and 2: "length (w_head w) = length (w_head w0)"
    by (auto simp: is_writer_def split: outcome.splits)
  from 1 have "w\<lparr>w_head := h\<rparr> = (w0\<lparr>w_head := w_head w\<rparr>)\<lparr>w_head := h\<rparr>"
    by (rule arg_cong)
  then have "w\<lparr>w_head := h\<rparr> = w0\<lparr>w_head := h\<rparr>" by simp
  with 0 2 assms(2) show ?thesis by (simp add: is_writer_def)
qed

lemma is_reader_head:
  assumes "is_reader p r" and "length h = length (r_head r)"
  shows "is_reader p (r\<lparr>r_head := h\<rparr>)"
proof -
  from assms(1) obtain r0 where 0: "NewReader p = Returns r0" and 1: "r = r0\<lparr>r_head := r_head r\<rparr>"
    and 2: "length (r_head r) = length (r_head r0)"
    by (auto simp: is_reader_def split: outcome.splits)
  from 1 have "r\<lparr>r_head := h\<rparr> = (r0\<lparr>r_head := r_head r\<rparr>)\<lparr>r_head := h\<rparr>"
    by (rule arg_cong)
  then have "r\<lparr>r_head := h\<rparr> = r0\<lparr>r_head := h\<rparr>" by simp
  with 0 2 assms(2) show ?thesis by (simp add: is_reader_def)
qed

lemma WritePacket_is_writer:
  assumes w: "is_writer p w" and res: "WritePacket w conn buffer = Returns (e, w', conn')"
  shows "is_writer p w'"
proof (cases "0 < w_MaxPacketSize w \<and> w_MaxPacketSize w < Len buffer")
  case True
  with res w show ?thesis by (simp add: WritePacket_def)
next
  case False
  have "\<exists>h. w_encodeHead w (Len buffer) (w_head w) = Returns h \<and> length h = length (w_head w)"
  proof -
    consider "p_n p = 1" | "p_n p = 2" | "p_n p = 4" | "p_n p = 8"
      using is_writerD(1)[OF w] by blast
    then show ?thesis
    proof cases
      case 1
      with is_writerD(2)[OF w] obtain a where "w_head w = [a]" using len1[of "w_head w"] by auto
      with 1 show ?thesis by (simp add: is_writer_encodeHead[OF w])
    next
      case 2
      with is_writerD(2)[OF w] have "length (w_head w) = 2" by simp
      with Uint16_PutUint16[OF this] 2 show ?thesis
        by (auto simp: is_writer_encodeHead[OF w])
    next
      case 3
      with is_writerD(2)[OF w] have "length (w_head w) = 4" by simp
      with Uint32_PutUint32[OF this] 3 show ?thesis
        by (auto simp: is_writer_encodeHead[OF w])
    next
      case 4
      with is_writerD(2)[OF w] have "length (w_head w) = 8" by simp
      with Uint64_PutUint64[OF this] 4 show ?thesis
        by (auto simp: is_writer_encodeHead[OF w])
    qed
  qed
  then obtain h where h: "w_encodeHead w (Len buffer) (w_head w) = Returns h"
    and len: "length h = length (w_head w)" by blast
  from res False h have "w' = w\<lparr>w_head := h\<rparr>"
    by (auto simp: WritePacket_def Let_def split: prod.splits if_splits)
  with is_writer_head[OF w len] show ?thesis by simp
qed

lemma ReadPacket_is_reader:
  assumes r: "is_reader p r" and res: "ReadPacket r conn buffer = Some (Returns (e, r', conn', buffer'))"
  shows "is_reader p r'"
proof -
  from res obtain k err conn1 h where rf: "ReadFull conn (r_head r) = Some ((k, err), conn1, h)"
    by (auto simp: ReadPacket_def split: option.splits)
  from res rf have "r' = r\<lparr>r_head := h\<rparr>"
    by (auto simp: ReadPacket_def Let_def split: option.splits if_splits outcome.splits)
  with is_reader_head[OF r ReadFull_length[OF rf]] show ?thesis by simp
qed

section \<open>The claims of the specification\<close>

text \<open>
  C1, as the spec states it: for every width, byte order and payload length
  \<open>0 \<le> L < 2^(8w)\<close>, writing and then reading with the same configuration succeeds and
  the buffer holds exactly the \<open>L\<close> payload bytes. Two runs with width 1 where it does
  not. With \<^verbatim>\<open>MaxPacketSize\<close> 1, a payload of 2 bytes is refused by \<^verbatim>\<open>WritePacket\<close>.
  With \<^verbatim>\<open>MaxPacketSize\<close> 0, the empty payload is written and read back without error,
  and the caller's buffer, which held one byte before, still holds it: not the 0 bytes
  of the payload.
\<close>

theorem round_trip_fails_on_limit_and_on_empty_payload:
  "NewWriter \<lparr>p_MaxPacketSize = 1, p_n = 1, p_bo = BigEndian, p_bf = ()\<rparr> =
     Returns \<lparr>w_MaxPacketSize = 1, w_head = [0],
       w_encodeHead = (\<lambda>sz h. if length h = 0 then Panics IndexOutOfRange
                                  else Returns (h[0 := word_of_int sz]))\<rparr>
   \<and> WritePacket \<lparr>w_MaxPacketSize = 1, w_head = [0],
       w_encodeHead = (\<lambda>sz h. if length h = 0 then Panics IndexOutOfRange
                                  else Returns (h[0 := word_of_int sz]))\<rparr> outgoing [1, 2] =
     Returns (Some PacketTooLargeError, \<lparr>w_MaxPacketSize = 1, w_head = [0],
       w_encodeHead = (\<lambda>sz h. if length h = 0 then Panics IndexOutOfRange
                                  else Returns (h[0 := word_of_int sz]))\<rparr>, outgoing)
   \<and> NewWriter \<lparr>p_MaxPacketSize = 0, p_n = 1, p_bo = BigEndian, p_bf = ()\<rparr> =
     Returns \<lparr>w_MaxPacketSize = 0, w_head = [0],
       w_encodeHead = (\<lambda>sz h. if length h = 0 then Panics IndexOutOfRange
                                  else Returns (h[0 := word_of_int sz]))\<rparr>
   \<and> NewReader \<lparr>p_MaxPacketSize = 0, p_n = 1, p_bo = BigEndian, p_bf = ()\<rparr> =
     Returns \<lparr>r_MaxPacketSize = 0, r_head = [0],
       r_decodeHead = (\<lambda>h. if length h = 0 then Panics IndexOutOfRange
                              else Returns (uint (h ! 0)))\<rparr>
   \<and> WritePacket \<lparr>w_MaxPacketSize = 0, w_head = [0],
       w_encodeHead = (\<lambda>sz h. if length h = 0 then Panics IndexOutOfRange
                                  else Returns (h[0 := word_of_int sz]))\<rparr> outgoing [] =
     Returns (None, \<lparr>w_MaxPacketSize = 0, w_head = [0],
       w_encodeHead = (\<lambda>sz h. if length h = 0 then Panics IndexOutOfRange
                                  else Returns (h[0 := word_of_int sz]))\<rparr>,
       ScriptConn \<lparr>sent = [0], write_results = [], read_results = []\<rparr>)
   \<and> ReadPacket \<lparr>r_MaxPacketSize = 0, r_head = [0],
       r_decodeHead = (\<lambda>h. if length h = 0 then Panics IndexOutOfRange
                              else Returns (uint (h ! 0)))\<rparr> (incoming [[0]]) [0x41] =
     Some (Returns (None, \<lparr>r_MaxPacketSize = 0, r_head = [0],
       r_decodeHead = (\<lambda>h. if length h = 0 then Panics IndexOutOfRange
                              else Returns (uint (h ! 0)))\<rparr>, incoming [], [0x41]))
   \<and> [0x41 :: byte] \<noteq> []"
  by (simp add: NewWriter_def NewReader_def NewPNWriter_def NewPNReader_def
      WritePacket_def ReadPacket_def Len_def Get_def
      ReadFull_def ReadAtLeast_def ReadAtLeast_loop.simps Read_def Write_def incoming_def outgoing_def
      ScriptConn_def script_Read_def script_Write_def)

text \<open>
  C1, amended. For every width in \<open>{1, 2, 4, 8}\<close> (there is a writer and a reader of the
  descriptor), either byte order and every payload of a length \<open>L < 2^(8w)\<close> that a Go
  slice can have (\<open>L \<le> 2^63 - 1\<close>) and that the configured limit admits
  (\<^verbatim>\<open>MaxPacketSize\<close> \<open>\<le> 0\<close> or \<open>L \<le>\<close> \<^verbatim>\<open>MaxPacketSize\<close>): \<^verbatim>\<open>WritePacket\<close> returns \<^verbatim>\<open>nil\<close>
  and puts the \<open>w\<close> header bytes and then the payload on the connection; \<^verbatim>\<open>ReadPacket\<close>
  with the same configuration on that stream, in whatever fragments it arrives, returns
  \<^verbatim>\<open>nil\<close> and has read all of it. For \<open>L > 0\<close> the buffer then holds exactly the
  payload; for \<open>L = 0\<close> the buffer is as the caller supplied it.
\<close>

theorem round_trip:
  assumes w: "is_writer p w" and r: "is_reader p r"
    and fits: "int (length payload) < 2 ^ (8 * nat (p_n p))"
    and slice: "int (length payload) \<le> maxInt"
    and limit: "\<not> (0 < p_MaxPacketSize p \<and> p_MaxPacketSize p < int (length payload))"
  shows "\<exists>hdr. length hdr = nat (p_n p)
    \<and> WritePacket w outgoing payload =
        Returns (None, w\<lparr>w_head := hdr\<rparr>,
          ScriptConn \<lparr>sent = hdr @ payload, write_results = [], read_results = []\<rparr>)
    \<and> (\<forall>frags. concat frags = hdr @ payload \<longrightarrow>
         (\<exists>conn'. ReadPacket r (incoming frags) buffer =
            Some (Returns (None, r\<lparr>r_head := hdr\<rparr>, conn',
                           if payload = [] then buffer else payload))
          \<and> unread conn' = []))"
proof -
  let ?L = "int (length payload)"
  from encode_decode[OF w r is_writerD(2)[OF w], of ?L]
  obtain hdr where enc: "w_encodeHead w ?L (w_head w) = Returns hdr"
    and len: "length hdr = nat (p_n p)"
    and dec: "r_decodeHead r hdr =
      Returns (if p_n p = 8 then sint (word_of_int ?L :: 64 word) else ?L mod 2 ^ (8 * nat (p_n p)))"
    by blast
  have "(if p_n p = 8 then sint (word_of_int ?L :: 64 word) else ?L mod 2 ^ (8 * nat (p_n p))) = ?L"
    using decoded_length[OF is_writerD(1)[OF w] _ fits slice] by simp
  with dec have dec: "r_decodeHead r hdr = Returns ?L" by simp
  have wr: "WritePacket w outgoing payload =
        Returns (None, w\<lparr>w_head := hdr\<rparr>,
          ScriptConn \<lparr>sent = hdr @ payload, write_results = [], read_results = []\<rparr>)"
    using WritePacket_script[of w payload hdr "\<lparr>sent = [], write_results = [], read_results = []\<rparr>"]
      enc limit is_writerD(3)[OF w]
    by (simp add: outgoing_def Len_def)
  have rd: "\<exists>conn'. ReadPacket r (incoming frags) buffer =
            Some (Returns (None, r\<lparr>r_head := hdr\<rparr>, conn',
                           if payload = [] then buffer else payload))
          \<and> unread conn' = []" if fr: "concat frags = hdr @ payload" for frags
  proof (cases "payload = []")
    case True
    with ReadPacket_frame_empty[OF r, of frags hdr "[]" buffer] fr len dec show ?thesis by simp
  next
    case False
    with ReadPacket_frame[OF r, of frags hdr payload "[]" buffer] fr len dec limit show ?thesis by simp
  qed
  from len wr rd show ?thesis by blast
qed


theorem round_trip_witness:
  "is_writer \<lparr>p_MaxPacketSize = 0, p_n = 2, p_bo = LittleEndian, p_bf = ()\<rparr>
     \<lparr>w_MaxPacketSize = 0, w_head = [0, 0],
       w_encodeHead = (\<lambda>sz h. PutUint16 LittleEndian h (word_of_int sz))\<rparr>
   \<and> is_reader \<lparr>p_MaxPacketSize = 0, p_n = 2, p_bo = LittleEndian, p_bf = ()\<rparr>
     \<lparr>r_MaxPacketSize = 0, r_head = [0, 0],
       r_decodeHead = (\<lambda>h. map_outcome uint (Uint16 LittleEndian h))\<rparr>
   \<and> int (length [1, 2, 3 :: byte]) < 2 ^ (8 * nat 2)
   \<and> int (length [1, 2, 3 :: byte]) \<le> maxInt
   \<and> WritePacket \<lparr>w_MaxPacketSize = 0, w_head = [0, 0],
       w_encodeHead = (\<lambda>sz h. PutUint16 LittleEndian h (word_of_int sz))\<rparr> outgoing [1, 2, 3] =
       Returns (None, \<lparr>w_MaxPacketSize = 0, w_head = [3, 0],
         w_encodeHead = (\<lambda>sz h. PutUint16 LittleEndian h (word_of_int sz))\<rparr>,
         ScriptConn \<lparr>sent = [3, 0, 1, 2, 3], write_results = [], read_results = []\<rparr>)
   \<and> (\<exists>conn'. ReadPacket \<lparr>r_MaxPacketSize = 0, r_head = [0, 0],
         r_decodeHead = (\<lambda>h. map_outcome uint (Uint16 LittleEndian h))\<rparr>
           (incoming [[3], [0, 1], [2, 3]]) [9] =
         Some (Returns (None, \<lparr>r_MaxPacketSize = 0, r_head = [3, 0],
           r_decodeHead = (\<lambda>h. map_outcome uint (Uint16 LittleEndian h))\<rparr>, conn', [1, 2, 3]))
       \<and> unread conn' = [])"
proof -
  let ?p = "\<lparr>p_MaxPacketSize = 0, p_n = 2, p_bo = LittleEndian, p_bf = ()\<rparr>"
  let ?w = "\<lparr>w_MaxPacketSize = 0, w_head = [0, 0],
       w_encodeHead = (\<lambda>sz h. PutUint16 LittleEndian h (word_of_int sz))\<rparr>"
  let ?r = "\<lparr>r_MaxPacketSize = 0, r_head = [0, 0],
       r_decodeHead = (\<lambda>h. map_outcome uint (Uint16 LittleEndian h))\<rparr>"
  have w: "is_writer ?p ?w" by (simp add: is_writer_def NewWriter_def NewPNWriter_def)
  have r: "is_reader ?p ?r" by (simp add: is_reader_def NewReader_def NewPNReader_def)
  have f: "int (length [1, 2, 3 :: byte]) < 2 ^ (8 * nat (p_n ?p))" by simp
  have s: "int (length [1, 2, 3 :: byte]) \<le> maxInt" by (simp add: maxInt_def)
  have l: "\<not> (0 < p_MaxPacketSize ?p \<and> p_MaxPacketSize ?p < int (length [1, 2, 3 :: byte]))" by simp
  from round_trip [OF w r f s l, of "[9]"] obtain hdr where
    wp: "WritePacket ?w outgoing [1, 2, 3] =
        Returns (None, ?w\<lparr>w_head := hdr\<rparr>,
          ScriptConn \<lparr>sent = hdr @ [1, 2, 3], write_results = [], read_results = []\<rparr>)"
    and rd: "\<forall>frags. concat frags = hdr @ [1, 2, 3] \<longrightarrow>
         (\<exists>conn'. ReadPacket ?r (incoming frags) [9] =
            Some (Returns (None, ?r\<lparr>r_head := hdr\<rparr>, conn',
                           if [1, 2, 3 :: byte] = [] then [9] else [1, 2, 3]))
          \<and> unread conn' = [])"
    by blast
  have "WritePacket ?w outgoing [1, 2, 3] =
       Returns (None, ?w\<lparr>w_head := [3, 0]\<rparr>,
         ScriptConn \<lparr>sent = [3, 0, 1, 2, 3], write_results = [], read_results = []\<rparr>)"
    by (simp add: WritePacket_def Len_def Get_def PutUint16_def Write_def outgoing_def
        ScriptConn_def script_Write_def)
  with wp have hdr: "hdr = [3, 0]" by simp
  from rd hdr have "\<exists>conn'. ReadPacket ?r (incoming [[3], [0, 1], [2, 3]]) [9] =
            Some (Returns (None, ?r\<lparr>r_head := [3, 0]\<rparr>, conn', [1, 2, 3]))
          \<and> unread conn' = []"
    by simp
  with w r s wp hdr show ?thesis by simp
qed

text \<open>
  C2, as the spec states it: a header width outside \<open>{1, 2, 4, 8}\<close> makes the
  construction of the protocol descriptor fail. It does not: \<^verbatim>\<open>PacketN\<close> stores the
  width unchecked and returns the descriptor, here for the width 3.
\<close>

theorem PacketN_accepts_any_width:
  "3 \<notin> {1, 2, 4, 8 :: int} \<and>
   PacketN 3 BigEndian () = Returns \<lparr>p_MaxPacketSize = 0, p_n = 3, p_bo = BigEndian, p_bf = ()\<rparr>"
  by (simp add: PacketN_def)

text \<open>
  C2, amended. \<^verbatim>\<open>PacketN\<close> returns a descriptor for every width. For a width outside
  \<open>{1, 2, 4, 8}\<close> it is the construction of a writer or a reader that fails:
  \<^verbatim>\<open>NewPNWriter\<close> and \<^verbatim>\<open>NewPNReader\<close>, and so \<^verbatim>\<open>NewWriter\<close> and \<^verbatim>\<open>NewReader\<close> on the
  descriptor, whatever its \<^verbatim>\<open>MaxPacketSize\<close>, panic. No writer and no reader of such a
  descriptor exists, so the width never reaches \<^verbatim>\<open>WritePacket\<close> or \<^verbatim>\<open>ReadPacket\<close>.
\<close>

theorem invalid_width_panics_in_NewWriter_NewReader:
  assumes "n \<notin> {1, 2, 4, 8}"
  shows "PacketN n bo bf = Returns \<lparr>p_MaxPacketSize = 0, p_n = n, p_bo = bo, p_bf = bf\<rparr>
    \<and> (\<exists>x. NewPNWriter n bo = Panics x)
    \<and> (\<exists>x. NewPNReader n bo = Panics x)
    \<and> (\<exists>x. NewWriter \<lparr>p_MaxPacketSize = M, p_n = n, p_bo = bo, p_bf = bf\<rparr> = Panics x)
    \<and> (\<exists>x. NewReader \<lparr>p_MaxPacketSize = M, p_n = n, p_bo = bo, p_bf = bf\<rparr> = Panics x)
    \<and> (\<forall>w. \<not> is_writer \<lparr>p_MaxPacketSize = M, p_n = n, p_bo = bo, p_bf = bf\<rparr> w)
    \<and> (\<forall>r. \<not> is_reader \<lparr>p_MaxPacketSize = M, p_n = n, p_bo = bo, p_bf = bf\<rparr> r)"
  using assms
  by (simp add: PacketN_def NewWriter_def NewReader_def NewPNWriter_def NewPNReader_def
      is_writer_def is_reader_def Let_def)

theorem invalid_width_panics_in_NewWriter_NewReader_witness:
  "(3 :: int) \<notin> {1, 2, 4, 8}
    \<and> PacketN 3 LittleEndian () = Returns \<lparr>p_MaxPacketSize = 0, p_n = 3, p_bo = LittleEndian, p_bf = ()\<rparr>
    \<and> NewPNWriter 3 LittleEndian = Panics UnsupportedPacketHeadSize
    \<and> NewPNReader 3 LittleEndian = Panics UnsupportedPacketHeadSize
    \<and> NewWriter \<lparr>p_MaxPacketSize = 100, p_n = 3, p_bo = LittleEndian, p_bf = ()\<rparr> =
          Panics UnsupportedPacketHeadSize
    \<and> NewReader \<lparr>p_MaxPacketSize = 100, p_n = 3, p_bo = LittleEndian, p_bf = ()\<rparr> =
          Panics UnsupportedPacketHeadSize
    \<and> (\<forall>w. \<not> is_writer \<lparr>p_MaxPacketSize = 100, p_n = 3, p_bo = LittleEndian, p_bf = ()\<rparr> w)
    \<and> (\<forall>r. \<not> is_reader \<lparr>p_MaxPacketSize = 100, p_n = 3, p_bo = LittleEndian, p_bf = ()\<rparr> r)"
proof -
  have n: "(3 :: int) \<notin> {1, 2, 4, 8}" by simp
  have x: "NewPNWriter 3 LittleEndian = Panics UnsupportedPacketHeadSize"
    "NewPNReader 3 LittleEndian = Panics UnsupportedPacketHeadSize"
    "NewWriter \<lparr>p_MaxPacketSize = 100, p_n = 3, p_bo = LittleEndian, p_bf = ()\<rparr> =
          Panics UnsupportedPacketHeadSize"
    "NewReader \<lparr>p_MaxPacketSize = 100, p_n = 3, p_bo = LittleEndian, p_bf = ()\<rparr> =
          Panics UnsupportedPacketHeadSize"
    by (simp_all add: NewWriter_def NewReader_def NewPNWriter_def NewPNReader_def)
  from n x invalid_width_panics_in_NewWriter_NewReader [OF n, of LittleEndian "()" 100]
  show ?thesis by simp
qed

text \<open>
  C3. The claim: for every reader with \<^verbatim>\<open>MaxPacketSize\<close> \<open>M > 0\<close>, a header whose length
  exceeds \<open>M\<close> makes \<^verbatim>\<open>ReadPacket\<close> return \<open>PacketTooLargeError\<close>, with only the header
  taken from the stream and the buffer untouched. The code misses this at width 8. The
  header is an unsigned length, and \<^verbatim>\<open>int(byteOrder.Uint64(r.head))\<close> reads one with the
  top bit set as a negative \<^verbatim>\<open>int\<close>, which \<^verbatim>\<open>size > r.MaxPacketSize\<close> lets through. The
  run: a reader of width 8, big-endian, with \<open>M = 5\<close>, and the header
  \<^verbatim>\<open>80 00 00 00 00 00 00 01\<close>, the length \<open>2^63 + 1\<close>. The eight bytes are read, they
  decode to \<open>-(2^63 - 1)\<close>, the limit is not applied, and \<^verbatim>\<open>Prepare\<close> is called with the
  negative size: \<^verbatim>\<open>ReadPacket\<close> does not return \<open>PacketTooLargeError\<close>.
\<close>

theorem ReadPacket_limit_missed_at_width_8:
  "NewReader \<lparr>p_MaxPacketSize = 5, p_n = 8, p_bo = BigEndian, p_bf = ()\<rparr> =
     Returns \<lparr>r_MaxPacketSize = 5, r_head = [0, 0, 0, 0, 0, 0, 0, 0],
       r_decodeHead = (\<lambda>h. map_outcome sint (Uint64 BigEndian h))\<rparr>
   \<and> Uint64 BigEndian [0x80, 0, 0, 0, 0, 0, 0, 1] = Returns 0x8000000000000001
   \<and> uint (0x8000000000000001 :: 64 word) = 9223372036854775809
   \<and> (5 :: int) < 9223372036854775809
   \<and> r_decodeHead \<lparr>r_MaxPacketSize = 5, r_head = [0, 0, 0, 0, 0, 0, 0, 0],
       r_decodeHead = (\<lambda>h. map_outcome sint (Uint64 BigEndian h))\<rparr>
       [0x80, 0, 0, 0, 0, 0, 0, 1] = Returns (- 9223372036854775807)
   \<and> ReadFull (incoming [[0x80, 0, 0, 0, 0, 0, 0, 1], [1, 2, 3]]) [0, 0, 0, 0, 0, 0, 0, 0] =
       Some ((8, None), incoming [[1, 2, 3]], [0x80, 0, 0, 0, 0, 0, 0, 1])
   \<and> ReadPacket \<lparr>r_MaxPacketSize = 5, r_head = [0, 0, 0, 0, 0, 0, 0, 0],
       r_decodeHead = (\<lambda>h. map_outcome sint (Uint64 BigEndian h))\<rparr>
       (incoming [[0x80, 0, 0, 0, 0, 0, 0, 1], [1, 2, 3]]) [0x41] =
     Some (Panics MakesliceLenOutOfRange)"
proof -
  let ?r = "\<lparr>r_MaxPacketSize = 5, r_head = [0, 0, 0, 0, 0, 0, 0, 0],
       r_decodeHead = (\<lambda>h. map_outcome sint (Uint64 BigEndian h))\<rparr>"
  have nr: "NewReader \<lparr>p_MaxPacketSize = 5, p_n = 8, p_bo = BigEndian, p_bf = ()\<rparr> = Returns ?r"
    by (simp add: NewReader_def NewPNReader_def eval_nat_numeral)
  have u: "Uint64 BigEndian [0x80, 0, 0, 0, 0, 0, 0, 1] = Returns 0x8000000000000001"
    by (simp add: Uint64_def)
  have v: "uint (0x8000000000000001 :: 64 word) = 9223372036854775809" by simp
  have s: "sint (0x8000000000000001 :: 64 word) = - 9223372036854775807" by simp
  have d: "r_decodeHead ?r [0x80, 0, 0, 0, 0, 0, 0, 1] = Returns (- 9223372036854775807)"
    using u s by simp
  have rf: "ReadFull (incoming [[0x80, 0, 0, 0, 0, 0, 0, 1], [1, 2, 3]]) [0, 0, 0, 0, 0, 0, 0, 0] =
       Some ((8, None), incoming [[1, 2, 3]], [0x80, 0, 0, 0, 0, 0, 0, 1])"
    by (simp add: ReadFull_def ReadAtLeast_def ReadAtLeast_loop.simps Read_def incoming_def
        ScriptConn_def script_Read_def)
  have rp: "ReadPacket ?r (incoming [[0x80, 0, 0, 0, 0, 0, 0, 1], [1, 2, 3]]) [0x41] =
     Some (Panics MakesliceLenOutOfRange)"
    using rf d by (simp add: ReadPacket_def Prepare_def)
  from nr u v d rf rp show ?thesis by simp
qed

text \<open>
  What the limit of the reader does guarantee: whenever the \<^verbatim>\<open>int\<close> that the reader
  decodes from the header exceeds \<open>M > 0\<close>. On every connection, once the header is
  read, \<^verbatim>\<open>ReadPacket\<close> returns \<open>PacketTooLargeError\<close>, with the connection as the read
  of the header left it and the caller's buffer as it was given. On a stream that starts
  with this header, in whatever fragments it arrives, exactly the bytes of the header
  have been taken from the stream, and all that follows them is still unread.
\<close>

lemma ReadPacket_too_large:
  assumes M: "0 < r_MaxPacketSize r" and L: "r_decodeHead r hdr = Returns L"
    and big: "r_MaxPacketSize r < L"
  shows "(\<forall>(conn :: 'c Conn) k conn1.
        ReadFull conn (r_head r) = Some ((k, None), conn1, hdr) \<longrightarrow>
        ReadPacket r conn buffer =
          Some (Returns (Some PacketTooLargeError, r\<lparr>r_head := hdr\<rparr>, conn1, buffer)))
    \<and> (\<forall>frags rest.
        length hdr = length (r_head r) \<longrightarrow> concat frags = hdr @ rest \<longrightarrow>
        (\<exists>conn'. ReadPacket r (incoming frags) buffer =
            Some (Returns (Some PacketTooLargeError, r\<lparr>r_head := hdr\<rparr>, conn', buffer))
          \<and> unread conn' = rest))"
proof (intro conjI allI impI)
  fix conn :: "'c Conn" and k conn1
  assume "ReadFull conn (r_head r) = Some ((k, None), conn1, hdr)"
  with M L big show "ReadPacket r conn buffer =
      Some (Returns (Some PacketTooLargeError, r\<lparr>r_head := hdr\<rparr>, conn1, buffer))"
    by (simp add: ReadPacket_def)
next
  fix frags rest
  assume len: "length hdr = length (r_head r)" and stream: "concat frags = hdr @ rest"
  let ?c = "\<lambda>fs. ScriptConn \<lparr>sent = [], write_results = [],
                               read_results = map (\<lambda>ck. (ck, None)) fs\<rparr>"
  from ReadFull_incoming[of "conn_state (incoming frags)" frags hdr rest "r_head r"] stream len
  obtain frags' where rf: "ReadFull (incoming frags) (r_head r) =
       Some ((length (r_head r), None), ?c frags', hdr)"
     and c: "concat frags' = rest"
    by (auto simp: incoming_def ScriptConn_def)
  have "unread (?c frags') = rest"
    using c by (simp add: unread_def ScriptConn_def comp_def)
  moreover have "ReadPacket r (incoming frags) buffer =
      Some (Returns (Some PacketTooLargeError, r\<lparr>r_head := hdr\<rparr>, ?c frags', buffer))"
    using rf L M big by (simp add: ReadPacket_def)
  ultimately show "\<exists>conn'. ReadPacket r (incoming frags) buffer =
            Some (Returns (Some PacketTooLargeError, r\<lparr>r_head := hdr\<rparr>, conn', buffer))
          \<and> unread conn' = rest"
    by blast
qed

lemma ReadPacket_too_large_witness:
  "NewReader \<lparr>p_MaxPacketSize = 3, p_n = 1, p_bo = BigEndian, p_bf = ()\<rparr> =
     Returns \<lparr>r_MaxPacketSize = 3, r_head = [0],
       r_decodeHead = (\<lambda>h. if length h = 0 then Panics IndexOutOfRange else Returns (uint (h ! 0)))\<rparr>
   \<and> r_decodeHead \<lparr>r_MaxPacketSize = 3, r_head = [0],
       r_decodeHead = (\<lambda>h. if length h = 0 then Panics IndexOutOfRange else Returns (uint (h ! 0)))\<rparr> [5]
       = Returns 5
   \<and> ReadFull (incoming [[5, 1, 2], [3, 4, 5]]) [0] =
       Some ((1, None), incoming [[1, 2], [3, 4, 5]], [5])
   \<and> ReadPacket \<lparr>r_MaxPacketSize = 3, r_head = [0],
       r_decodeHead = (\<lambda>h. if length h = 0 then Panics IndexOutOfRange else Returns (uint (h ! 0)))\<rparr>
         (incoming [[5, 1, 2], [3, 4, 5]]) [0x41] =
       Some (Returns (Some PacketTooLargeError, \<lparr>r_MaxPacketSize = 3, r_head = [5],
       r_decodeHead = (\<lambda>h. if length h = 0 then Panics IndexOutOfRange else Returns (uint (h ! 0)))\<rparr>,
         incoming [[1, 2], [3, 4, 5]], [0x41]))
   \<and> unread (incoming [[1, 2], [3, 4, 5]]) = [1, 2, 3, 4, 5]
   \<and> (\<exists>conn'. ReadPacket \<lparr>r_MaxPacketSize = 3, r_head = [0],
       r_decodeHead = (\<lambda>h. if length h = 0 then Panics IndexOutOfRange else Returns (uint (h ! 0)))\<rparr>
         (incoming [[5], [1, 2, 3, 4, 5]]) [0x41] =
       Some (Returns (Some PacketTooLargeError, \<lparr>r_MaxPacketSize = 3, r_head = [5],
       r_decodeHead = (\<lambda>h. if length h = 0 then Panics IndexOutOfRange else Returns (uint (h ! 0)))\<rparr>,
         conn', [0x41]))
     \<and> unread conn' = [1, 2, 3, 4, 5])"
proof -
  let ?r = "\<lparr>r_MaxPacketSize = 3, r_head = [0],
       r_decodeHead = (\<lambda>h. if length h = 0 then Panics IndexOutOfRange else Returns (uint (h ! 0)))\<rparr>"
  have nr: "NewReader \<lparr>p_MaxPacketSize = 3, p_n = 1, p_bo = BigEndian, p_bf = ()\<rparr> = Returns ?r"
    by (simp add: NewReader_def NewPNReader_def)
  have m: "0 < r_MaxPacketSize ?r" by simp
  have d: "r_decodeHead ?r [5] = Returns 5" by simp
  have b: "r_MaxPacketSize ?r < 5" by simp
  have rf: "ReadFull (incoming [[5, 1, 2], [3, 4, 5]]) (r_head ?r) =
       Some ((1, None), incoming [[1, 2], [3, 4, 5]], [5])"
    by (simp add: ReadFull_def ReadAtLeast_def ReadAtLeast_loop.simps Read_def incoming_def
        ScriptConn_def script_Read_def)
  note T = ReadPacket_too_large [OF m d b, where ?'c = Script and buffer = "[0x41]"]
  have one: "ReadPacket ?r (incoming [[5, 1, 2], [3, 4, 5]]) [0x41] =
       Some (Returns (Some PacketTooLargeError, ?r\<lparr>r_head := [5]\<rparr>,
         incoming [[1, 2], [3, 4, 5]], [0x41]))"
    using T [THEN conjunct1, rule_format, OF rf] .
  have two: "\<exists>conn'. ReadPacket ?r (incoming [[5], [1, 2, 3, 4, 5]]) [0x41] =
       Some (Returns (Some PacketTooLargeError, ?r\<lparr>r_head := [5]\<rparr>, conn', [0x41]))
     \<and> unread conn' = [1, 2, 3, 4, 5]"
    using T [THEN conjunct2, rule_format, of "[[5], [1, 2, 3, 4, 5]]" "[1, 2, 3, 4, 5]"] by simp
  have u: "unread (incoming [[1, 2], [3, 4, 5]]) = [1, 2, 3, 4, 5]"
    by (simp add: unread_def incoming_def ScriptConn_def)
  from nr d rf one two u show ?thesis by simp
qed

text \<open>
  C4. For every writer with \<^verbatim>\<open>MaxPacketSize\<close> \<open>M > 0\<close> and every outgoing payload whose
  length exceeds \<open>M\<close>, \<^verbatim>\<open>WritePacket\<close> returns \<open>PacketTooLargeError\<close> and writes
  nothing: the connection is returned as it was given, for every connection, so neither of
  its methods was called; the writer is unchanged as well.
\<close>

theorem WritePacket_too_large:
  "0 < w_MaxPacketSize w \<Longrightarrow> w_MaxPacketSize w < Len buffer \<Longrightarrow>
   WritePacket w conn buffer = Returns (Some PacketTooLargeError, w, conn)"
  by (simp add: WritePacket_def)

theorem WritePacket_too_large_witness:
  "NewWriter \<lparr>p_MaxPacketSize = 3, p_n = 2, p_bo = BigEndian, p_bf = ()\<rparr> =
     Returns \<lparr>w_MaxPacketSize = 3, w_head = [0, 0],
       w_encodeHead = (\<lambda>sz h. PutUint16 BigEndian h (word_of_int sz))\<rparr>
   \<and> 0 < w_MaxPacketSize \<lparr>w_MaxPacketSize = 3, w_head = [0, 0],
       w_encodeHead = (\<lambda>sz h. PutUint16 BigEndian h (word_of_int sz))\<rparr>
   \<and> w_MaxPacketSize \<lparr>w_MaxPacketSize = 3, w_head = [0, 0],
       w_encodeHead = (\<lambda>sz h. PutUint16 BigEndian h (word_of_int sz))\<rparr> < Len [1, 2, 3, 4, 5]
   \<and> WritePacket \<lparr>w_MaxPacketSize = 3, w_head = [0, 0],
       w_encodeHead = (\<lambda>sz h. PutUint16 BigEndian h (word_of_int sz))\<rparr> outgoing [1, 2, 3, 4, 5] =
     Returns (Some PacketTooLargeError, \<lparr>w_MaxPacketSize = 3, w_head = [0, 0],
       w_encodeHead = (\<lambda>sz h. PutUint16 BigEndian h (word_of_int sz))\<rparr>, outgoing)
   \<and> sent (conn_state outgoing) = []"
  using WritePacket_too_large [of "\<lparr>w_MaxPacketSize = 3, w_head = [0, 0],
       w_encodeHead = (\<lambda>sz h. PutUint16 BigEndian h (word_of_int sz))\<rparr>" "[1, 2, 3, 4, 5]" outgoing]
  by (simp add: NewWriter_def NewPNWriter_def Len_def outgoing_def ScriptConn_def eval_nat_numeral)

text \<open>
  C5. Width 2, big-endian, \<^verbatim>\<open>MaxPacketSize\<close> 0, payload the five ASCII bytes of
  \<^verbatim>\<open>hello\<close>: \<^verbatim>\<open>WritePacket\<close> returns \<^verbatim>\<open>nil\<close> and has put exactly the bytes
  \<^verbatim>\<open>00 05 68 65 6C 6C 6F\<close> on the connection; a reader of the same configuration that
  reads this stream, in whatever fragments it arrives and whatever the caller's buffer
  held, returns \<^verbatim>\<open>nil\<close> and leaves exactly those five bytes in the buffer, with nothing
  of the stream unread.
\<close>

theorem hello_scenario:
  "map of_char ''hello'' = [0x68, 0x65, 0x6C, 0x6C, 0x6F :: byte] \<and>
   (\<exists>w r. NewWriter \<lparr>p_MaxPacketSize = 0, p_n = 2, p_bo = BigEndian, p_bf = ()\<rparr> = Returns w
      \<and> NewReader \<lparr>p_MaxPacketSize = 0, p_n = 2, p_bo = BigEndian, p_bf = ()\<rparr> = Returns r
      \<and> WritePacket w outgoing (map of_char ''hello'') =
          Returns (None, w\<lparr>w_head := [0x00, 0x05]\<rparr>,
            ScriptConn \<lparr>sent = [0x00, 0x05, 0x68, 0x65, 0x6C, 0x6C, 0x6F],
                        write_results = [], read_results = []\<rparr>)
      \<and> (\<forall>frags buffer. concat frags = [0x00, 0x05, 0x68, 0x65, 0x6C, 0x6C, 0x6F] \<longrightarrow>
           (\<exists>conn'. ReadPacket r (incoming frags) buffer =
               Some (Returns (None, r\<lparr>r_head := [0x00, 0x05]\<rparr>, conn', map of_char ''hello''))
             \<and> unread conn' = [])))"
proof -
  let ?p = "\<lparr>p_MaxPacketSize = 0, p_n = 2, p_bo = BigEndian, p_bf = ()\<rparr>"
  let ?w = "\<lparr>w_MaxPacketSize = 0, w_head = [0, 0],
             w_encodeHead = (\<lambda>sz h. PutUint16 BigEndian h (word_of_int sz))\<rparr>"
  let ?r = "\<lparr>r_MaxPacketSize = 0, r_head = [0, 0],
             r_decodeHead = (\<lambda>h. map_outcome uint (Uint16 BigEndian h))\<rparr>"
  have nw: "NewWriter ?p = Returns ?w" by (simp add: NewWriter_def NewPNWriter_def eval_nat_numeral)
  have nr: "NewReader ?p = Returns ?r" by (simp add: NewReader_def NewPNReader_def eval_nat_numeral)
  have r: "is_reader ?p ?r" by (simp add: is_reader_def nr)
  have wp: "WritePacket ?w outgoing (map of_char ''hello'') =
          Returns (None, ?w\<lparr>w_head := [0x00, 0x05]\<rparr>,
            ScriptConn \<lparr>sent = [0x00, 0x05, 0x68, 0x65, 0x6C, 0x6C, 0x6F],
                        write_results = [], read_results = []\<rparr>)"
    by (simp add: WritePacket_def Len_def Get_def PutUint16_def Write_def outgoing_def
        ScriptConn_def script_Write_def)
  have dec: "r_decodeHead ?r [0x00, 0x05] = Returns (int (length [0x68, 0x65, 0x6C, 0x6C, 0x6F :: byte]))"
    by (simp add: Uint16_def)
  have rp: "\<exists>conn'. ReadPacket ?r (incoming frags) buffer =
               Some (Returns (None, ?r\<lparr>r_head := [0x00, 0x05]\<rparr>, conn', map of_char ''hello''))
             \<and> unread conn' = []"
    if "concat frags = [0x00, 0x05, 0x68, 0x65, 0x6C, 0x6C, 0x6F]" for frags buffer
    using ReadPacket_frame[OF r, of frags "[0x00, 0x05]" "[0x68, 0x65, 0x6C, 0x6C, 0x6F]" "[]" buffer] that dec
    by simp
  have "map of_char ''hello'' = [0x68, 0x65, 0x6C, 0x6C, 0x6F :: byte]" by simp
  with nw nr wp rp show ?thesis by blast
qed

theorem hello_scenario_witness:
  "concat [[0x00], [0x05, 0x68], [0x65, 0x6C, 0x6C, 0x6F :: byte]] = [0x00, 0x05, 0x68, 0x65, 0x6C, 0x6C, 0x6F]
   \<and> (\<exists>conn'. ReadPacket \<lparr>r_MaxPacketSize = 0, r_head = [0, 0],
             r_decodeHead = (\<lambda>h. map_outcome uint (Uint16 BigEndian h))\<rparr>
           (incoming [[0x00], [0x05, 0x68], [0x65, 0x6C, 0x6C, 0x6F]]) [1, 2, 3] =
        Some (Returns (None, \<lparr>r_MaxPacketSize = 0, r_head = [0x00, 0x05],
             r_decodeHead = (\<lambda>h. map_outcome uint (Uint16 BigEndian h))\<rparr>, conn',
             [0x68, 0x65, 0x6C, 0x6C, 0x6F]))
      \<and> unread conn' = [])"
proof -
  have c: "concat [[0x00], [0x05, 0x68], [0x65, 0x6C, 0x6C, 0x6F :: byte]] = [0x00, 0x05, 0x68, 0x65, 0x6C, 0x6C, 0x6F]"
    by simp
  have nr: "NewReader \<lparr>p_MaxPacketSize = 0, p_n = 2, p_bo = BigEndian, p_bf = ()\<rparr> =
    Returns \<lparr>r_MaxPacketSize = 0, r_head = [0, 0],
             r_decodeHead = (\<lambda>h. map_outcome uint (Uint16 BigEndian h))\<rparr>"
    by (simp add: NewReader_def NewPNReader_def eval_nat_numeral)
  from hello_scenario obtain r where
    "NewReader \<lparr>p_MaxPacketSize = 0, p_n = 2, p_bo = BigEndian, p_bf = ()\<rparr> = Returns r"
    and rd: "\<forall>frags buffer. concat frags = [0x00, 0x05, 0x68, 0x65, 0x6C, 0x6C, 0x6F] \<longrightarrow>
           (\<exists>conn'. ReadPacket r (incoming frags) buffer =
               Some (Returns (None, r\<lparr>r_head := [0x00, 0x05]\<rparr>, conn', map of_char ''hello''))
             \<and> unread conn' = [])"
    by blast
  with nr have "r = \<lparr>r_MaxPacketSize = 0, r_head = [0, 0],
             r_decodeHead = (\<lambda>h. map_outcome uint (Uint16 BigEndian h))\<rparr>" by simp
  with rd c show ?thesis by simp
qed

text \<open>
  C6. For every writer configuration, \<^verbatim>\<open>WritePacket\<close> on a payload of length 0 makes one
  call of \<^verbatim>\<open>Write\<close>, with the header: as many zero bytes as the header is wide. Nothing
  else is written, and the error that call returns (none, when the header was written)
  is the result.
\<close>

theorem WritePacket_empty:
  assumes "is_writer p w"
  shows "WritePacket w conn [] =
    (case Write conn (replicate (nat (p_n p)) 0) of
       ((k, err), conn1) \<Rightarrow> Returns (err, w\<lparr>w_head := replicate (nat (p_n p)) 0\<rparr>, conn1))"
proof -
  have "w_encodeHead w 0 (w_head w) = Returns (replicate (nat (p_n p)) 0)"
    using encode_zero[OF assms is_writerD(2)[OF assms]] .
  then show ?thesis
    by (auto simp: WritePacket_def Len_def Let_def split: prod.splits)
qed

theorem WritePacket_empty_witness:
  "is_writer \<lparr>p_MaxPacketSize = 7, p_n = 4, p_bo = LittleEndian, p_bf = ()\<rparr>
     \<lparr>w_MaxPacketSize = 7, w_head = [1, 2, 3, 4],
       w_encodeHead = (\<lambda>sz h. PutUint32 LittleEndian h (word_of_int sz))\<rparr>
   \<and> WritePacket \<lparr>w_MaxPacketSize = 7, w_head = [1, 2, 3, 4],
       w_encodeHead = (\<lambda>sz h. PutUint32 LittleEndian h (word_of_int sz))\<rparr> outgoing [] =
     Returns (None, \<lparr>w_MaxPacketSize = 7, w_head = [0, 0, 0, 0],
       w_encodeHead = (\<lambda>sz h. PutUint32 LittleEndian h (word_of_int sz))\<rparr>,
       ScriptConn \<lparr>sent = [0, 0, 0, 0], write_results = [], read_results = []\<rparr>)"
proof -
  have w: "is_writer \<lparr>p_MaxPacketSize = 7, p_n = 4, p_bo = LittleEndian, p_bf = ()\<rparr>
     \<lparr>w_MaxPacketSize = 7, w_head = [1, 2, 3, 4],
       w_encodeHead = (\<lambda>sz h. PutUint32 LittleEndian h (word_of_int sz))\<rparr>"
    by (simp add: is_writer_def NewWriter_def NewPNWriter_def)
  show ?thesis
    using w WritePacket_empty [OF w, of outgoing]
    by (simp add: outgoing_def ScriptConn_def Write_def script_Write_def eval_nat_numeral)
qed

text \<open>
  C7. For every reader, when the header has been read and decodes to 0, \<^verbatim>\<open>ReadPacket\<close>
  returns \<^verbatim>\<open>nil\<close> at once: the connection is as the read of the header left it, and
  the caller's buffer is returned as it was given, whatever it held (\<^verbatim>\<open>Prepare\<close>, which
  would have reset it, is not called, and nothing is read into it).
\<close>

theorem ReadPacket_zero_length:
  assumes "ReadFull conn (r_head r) = Some ((k, None), conn1, h)"
    and "r_decodeHead r h = Returns 0"
  shows "ReadPacket r conn buffer = Some (Returns (None, r\<lparr>r_head := h\<rparr>, conn1, buffer))"
  using assms by (simp add: ReadPacket_def)

theorem ReadPacket_zero_length_witness:
  "ReadFull (incoming [[0], [0, 9]])
     (r_head \<lparr>r_MaxPacketSize = 0, r_head = [7, 7],
        r_decodeHead = (\<lambda>h. map_outcome uint (Uint16 BigEndian h))\<rparr>) =
     Some ((2, None), incoming [[9]], [0, 0])
   \<and> r_decodeHead \<lparr>r_MaxPacketSize = 0, r_head = [7, 7],
        r_decodeHead = (\<lambda>h. map_outcome uint (Uint16 BigEndian h))\<rparr> [0, 0] = Returns 0
   \<and> ReadPacket \<lparr>r_MaxPacketSize = 0, r_head = [7, 7],
        r_decodeHead = (\<lambda>h. map_outcome uint (Uint16 BigEndian h))\<rparr>
       (incoming [[0], [0, 9]]) [0x41, 0x42] =
     Some (Returns (None, \<lparr>r_MaxPacketSize = 0, r_head = [0, 0],
        r_decodeHead = (\<lambda>h. map_outcome uint (Uint16 BigEndian h))\<rparr>,
        incoming [[9]], [0x41, 0x42]))"
proof -
  have rf: "ReadFull (incoming [[0], [0, 9]])
     (r_head \<lparr>r_MaxPacketSize = 0, r_head = [7, 7],
        r_decodeHead = (\<lambda>h. map_outcome uint (Uint16 BigEndian h))\<rparr>) =
     Some ((2, None), incoming [[9]], [0, 0])"
    by (simp add: ReadFull_def ReadAtLeast_def ReadAtLeast_loop.simps Read_def incoming_def
        ScriptConn_def script_Read_def)
  have dec: "r_decodeHead \<lparr>r_MaxPacketSize = 0, r_head = [7, 7],
        r_decodeHead = (\<lambda>h. map_outcome uint (Uint16 BigEndian h))\<rparr> [0, 0] = Returns 0"
    by (simp add: Uint16_def)
  show ?thesis
    using rf dec ReadPacket_zero_length [OF rf dec, of "[0x41, 0x42]"] by simp
qed

text \<open>
  C8, as the spec states it: every failure the connection's read or write reports is
  returned by \<^verbatim>\<open>ReadPacket\<close> or \<^verbatim>\<open>WritePacket\<close> as the same error value. Two runs of a
  reader of width 2 where it is not. The connection delivers one byte of the header and
  then reports \<open>EOF\<close>: \<^verbatim>\<open>ReadPacket\<close> returns \<open>ErrUnexpectedEOF\<close>. The connection
  delivers the two header bytes (a zero length) and reports an error with them:
  \<^verbatim>\<open>ReadPacket\<close> returns \<^verbatim>\<open>nil\<close>.
\<close>

theorem read_error_changed_or_dropped:
  "Read (incoming [[7]]) 2 = (([7], None), incoming [])
   \<and> Read (incoming []) 1 = (([], Some EOF), incoming [])
   \<and> ReadPacket \<lparr>r_MaxPacketSize = 0, r_head = [0, 0],
         r_decodeHead = (\<lambda>h. map_outcome uint (Uint16 BigEndian h))\<rparr> (incoming [[7]]) [] =
       Some (Returns (Some ErrUnexpectedEOF, \<lparr>r_MaxPacketSize = 0, r_head = [7, 0],
         r_decodeHead = (\<lambda>h. map_outcome uint (Uint16 BigEndian h))\<rparr>, incoming [], []))
   \<and> ErrUnexpectedEOF \<noteq> EOF
   \<and> Read (ScriptConn \<lparr>sent = [], write_results = [],
           read_results = [([0, 0], Some (OtherError ''connection reset''))]\<rparr>) 2 =
       (([0, 0], Some (OtherError ''connection reset'')), incoming [])
   \<and> ReadPacket \<lparr>r_MaxPacketSize = 0, r_head = [0, 0],
         r_decodeHead = (\<lambda>h. map_outcome uint (Uint16 BigEndian h))\<rparr>
         (ScriptConn \<lparr>sent = [], write_results = [],
           read_results = [([0, 0], Some (OtherError ''connection reset''))]\<rparr>) [] =
       Some (Returns (None, \<lparr>r_MaxPacketSize = 0, r_head = [0, 0],
         r_decodeHead = (\<lambda>h. map_outcome uint (Uint16 BigEndian h))\<rparr>, incoming [], []))"
  by (simp add: ReadPacket_def Uint16_def
      ReadFull_def ReadAtLeast_def ReadAtLeast_loop.simps Read_def incoming_def
      ScriptConn_def script_Read_def)

text \<open>
  C8, amended. An error that the connection's \<^verbatim>\<open>Write\<close> reports for the header or for the
  payload is the return value of \<^verbatim>\<open>WritePacket\<close>, the same value, and the connection is
  returned as that call left it: after a failed write of the header the payload is not
  written, and nothing is written again. \<^verbatim>\<open>ReadPacket\<close> reads the header and the payload
  with \<^verbatim>\<open>io.ReadFull\<close> and returns the error of \<^verbatim>\<open>io.ReadFull\<close>, the same value, with the
  connection as \<^verbatim>\<open>io.ReadFull\<close> left it. In \<^verbatim>\<open>io.ReadFull\<close>, a \<^verbatim>\<open>Read\<close> that reports an
  error ends the loop, at whichever pass: no \<^verbatim>\<open>Read\<close> follows a failed one. When it is
  the first \<^verbatim>\<open>Read\<close> and bytes are still missing, its error is returned; and every error
  \<^verbatim>\<open>io.ReadFull\<close> returns was reported by a \<^verbatim>\<open>Read\<close> that left the connection as it is
  returned. The error is the connection's, but for \<open>EOF\<close> after at least one byte was
  read, which is returned as \<open>ErrUnexpectedEOF\<close>; an error reported along with the
  last missing byte is not among them.
\<close>

theorem transport_errors:
  "(\<forall>w (conn :: 'c Conn) buffer h k1 e1 conn1 k2 e2 conn2.
      \<not> (0 < w_MaxPacketSize w \<and> w_MaxPacketSize w < Len buffer) \<longrightarrow>
      w_encodeHead w (Len buffer) (w_head w) = Returns h \<longrightarrow>
      Write conn h = ((k1, e1), conn1) \<longrightarrow>
      Write conn1 (Get buffer) = ((k2, e2), conn2) \<longrightarrow>
      WritePacket w conn buffer =
        Returns (if e1 \<noteq> None then (e1, w\<lparr>w_head := h\<rparr>, conn1)
                 else if Len buffer = 0 then (None, w\<lparr>w_head := h\<rparr>, conn1)
                 else (e2, w\<lparr>w_head := h\<rparr>, conn2)))
   \<and> (\<forall>r (conn :: 'c Conn) buffer k e conn1 h.
      ReadFull conn (r_head r) = Some ((k, Some e), conn1, h) \<longrightarrow>
      ReadPacket r conn buffer = Some (Returns (Some e, r\<lparr>r_head := h\<rparr>, conn1, buffer)))
   \<and> (\<forall>r (conn :: 'c Conn) buffer k1 conn1 h sz buffer1 k2 e conn2 buffer2.
      ReadFull conn (r_head r) = Some ((k1, None), conn1, h) \<longrightarrow>
      r_decodeHead r h = Returns sz \<longrightarrow> sz \<noteq> 0 \<longrightarrow>
      \<not> (0 < r_MaxPacketSize r \<and> r_MaxPacketSize r < sz) \<longrightarrow>
      Prepare sz buffer = Returns buffer1 \<longrightarrow>
      ReadFull conn1 (Get buffer1) = Some ((k2, Some e), conn2, buffer2) \<longrightarrow>
      ReadPacket r conn buffer = Some (Returns (Some e, r\<lparr>r_head := h\<rparr>, conn2, buffer2)))
   \<and> (\<forall>(c :: 'c Conn) buf p e0 c1.
      Read c (length buf) = ((p, Some e0), c1) \<longrightarrow> length p < length buf \<longrightarrow>
      ReadFull c buf =
        Some ((length p, Some (if e0 = EOF \<and> p \<noteq> [] then ErrUnexpectedEOF else e0)), c1,
              p @ drop (length p) buf))
   \<and> (\<forall>(c :: 'c Conn) buf mn n p e0 c1.
      n < mn \<longrightarrow> Read c (length buf - n) = ((p, Some e0), c1) \<longrightarrow>
      ReadAtLeast_loop c buf mn n None =
        Some ((n + length p, Some e0), c1, take n buf @ p @ drop (n + length p) buf))
   \<and> (\<forall>(c :: 'c Conn) buf k e c' buf'.
      ReadFull c buf = Some ((k, Some e), c', buf') \<longrightarrow>
      k < length buf \<and>
      (\<exists>c0 m p e0. Read c0 m = ((p, Some e0), c') \<and>
         e = (if e0 = EOF \<and> 0 < k then ErrUnexpectedEOF else e0)))"
proof (intro conjI allI impI)
  fix w :: PNWriter and conn :: "'c Conn" and buffer h k1 e1 conn1 k2 e2 conn2
  assume "\<not> (0 < w_MaxPacketSize w \<and> w_MaxPacketSize w < Len buffer)"
    "w_encodeHead w (Len buffer) (w_head w) = Returns h"
    "Write conn h = ((k1, e1), conn1)" "Write conn1 (Get buffer) = ((k2, e2), conn2)"
  then show "WritePacket w conn buffer =
        Returns (if e1 \<noteq> None then (e1, w\<lparr>w_head := h\<rparr>, conn1)
                 else if Len buffer = 0 then (None, w\<lparr>w_head := h\<rparr>, conn1)
                 else (e2, w\<lparr>w_head := h\<rparr>, conn2))"
    by (rule WritePacket_results)
next
  fix r :: PNReader and conn :: "'c Conn" and buffer k e conn1 h
  assume "ReadFull conn (r_head r) = Some ((k, Some e), conn1, h)"
  then show "ReadPacket r conn buffer = Some (Returns (Some e, r\<lparr>r_head := h\<rparr>, conn1, buffer))"
    by (rule ReadPacket_header_error)
next
  fix r :: PNReader and conn :: "'c Conn" and buffer k1 conn1 h sz buffer1 k2 e conn2 buffer2
  assume "ReadFull conn (r_head r) = Some ((k1, None), conn1, h)"
      "r_decodeHead r h = Returns sz" "sz \<noteq> 0"
      "\<not> (0 < r_MaxPacketSize r \<and> r_MaxPacketSize r < sz)"
      "Prepare sz buffer = Returns buffer1"
      "ReadFull conn1 (Get buffer1) = Some ((k2, Some e), conn2, buffer2)"
  then show "ReadPacket r conn buffer = Some (Returns (Some e, r\<lparr>r_head := h\<rparr>, conn2, buffer2))"
    by (rule ReadPacket_payload_error)
next
  fix c :: "'c Conn" and buf :: "byte list" and p e0 c1
  assume "Read c (length buf) = ((p, Some e0), c1)" "length p < length buf"
  then show "ReadFull c buf =
        Some ((length p, Some (if e0 = EOF \<and> p \<noteq> [] then ErrUnexpectedEOF else e0)), c1,
              p @ drop (length p) buf)"
    by (rule ReadFull_first_error)
next
  fix c :: "'c Conn" and buf :: "byte list" and mn n p e0 c1
  assume "n < mn" "Read c (length buf - n) = ((p, Some e0), c1)"
  then show "ReadAtLeast_loop c buf mn n None =
        Some ((n + length p, Some e0), c1, take n buf @ p @ drop (n + length p) buf)"
    by (simp add: loop_step loop_err)
next
  fix c :: "'c Conn" and buf k e c' buf'
  assume rf: "ReadFull c buf = Some ((k, Some e), c', buf')"
  from ReadFull_error[OF rf] show "k < length buf" by simp
  from ReadFull_error[OF rf] show "\<exists>c0 m p e0. Read c0 m = ((p, Some e0), c') \<and>
         e = (if e0 = EOF \<and> 0 < k then ErrUnexpectedEOF else e0)" by simp
qed


theorem transport_errors_witness:
  "WritePacket \<lparr>w_MaxPacketSize = 0, w_head = [0],
       w_encodeHead = (\<lambda>sz h. if length h = 0 then Panics IndexOutOfRange
                                  else Returns (h[0 := word_of_int sz]))\<rparr>
     (ScriptConn \<lparr>sent = [], write_results = [None, Some (OtherError ''broken pipe'')],
                  read_results = []\<rparr>) [7, 8] =
     Returns (Some (OtherError ''broken pipe''),
       \<lparr>w_MaxPacketSize = 0, w_head = [2],
         w_encodeHead = (\<lambda>sz h. if length h = 0 then Panics IndexOutOfRange
                                  else Returns (h[0 := word_of_int sz]))\<rparr>,
       ScriptConn \<lparr>sent = [2], write_results = [], read_results = []\<rparr>)
   \<and> ReadPacket \<lparr>r_MaxPacketSize = 0, r_head = [0, 0],
         r_decodeHead = (\<lambda>h. map_outcome uint (Uint16 BigEndian h))\<rparr>
       (ScriptConn \<lparr>sent = [], write_results = [],
          read_results = [([], Some (OtherError ''connection reset''))]\<rparr>) [9] =
     Some (Returns (Some (OtherError ''connection reset''),
       \<lparr>r_MaxPacketSize = 0, r_head = [0, 0],
         r_decodeHead = (\<lambda>h. map_outcome uint (Uint16 BigEndian h))\<rparr>, incoming [], [9]))
   \<and> ReadPacket \<lparr>r_MaxPacketSize = 0, r_head = [0],
         r_decodeHead = (\<lambda>h. if length h = 0 then Panics IndexOutOfRange
                                else Returns (uint (h ! 0)))\<rparr>
       (ScriptConn \<lparr>sent = [], write_results = [],
          read_results = [([3, 9], None), ([], Some (OtherError ''connection reset''))]\<rparr>) [] =
     Some (Returns (Some (OtherError ''connection reset''),
       \<lparr>r_MaxPacketSize = 0, r_head = [3],
         r_decodeHead = (\<lambda>h. if length h = 0 then Panics IndexOutOfRange
                                else Returns (uint (h ! 0)))\<rparr>, incoming [], [9, 0, 0]))
   \<and> ReadFull (ScriptConn \<lparr>sent = [], write_results = [],
          read_results = [([7], Some EOF)]\<rparr>) [5, 5] =
     Some ((1, Some ErrUnexpectedEOF), incoming [], [7, 5])
   \<and> ReadAtLeast_loop (ScriptConn \<lparr>sent = [], write_results = [],
          read_results = [([9], Some (OtherError ''connection reset''))]\<rparr>) [3, 0, 0] 3 1 None =
     Some ((2, Some (OtherError ''connection reset'')), incoming [], [3, 9, 0])
   \<and> (\<exists>c0 m p e0. Read c0 m = ((p, Some e0), incoming []) \<and>
         ErrUnexpectedEOF = (if e0 = EOF \<and> 0 < (1 :: nat) then ErrUnexpectedEOF else e0))"
proof -
  let ?w = "\<lparr>w_MaxPacketSize = 0, w_head = [0],
       w_encodeHead = (\<lambda>sz h. if length h = 0 then Panics IndexOutOfRange
                                  else Returns (h[0 := word_of_int sz]))\<rparr>"
  let ?r2 = "\<lparr>r_MaxPacketSize = 0, r_head = [0, 0],
         r_decodeHead = (\<lambda>h. map_outcome uint (Uint16 BigEndian h))\<rparr>"
  let ?r1 = "\<lparr>r_MaxPacketSize = 0, r_head = [0],
         r_decodeHead = (\<lambda>h. if length h = 0 then Panics IndexOutOfRange
                                else Returns (uint (h ! 0)))\<rparr>"
  let ?cw = "ScriptConn \<lparr>sent = [], write_results = [None, Some (OtherError ''broken pipe'')],
                  read_results = []\<rparr>"
  let ?ch = "ScriptConn \<lparr>sent = [], write_results = [],
          read_results = [([], Some (OtherError ''connection reset''))]\<rparr>"
  let ?cp = "ScriptConn \<lparr>sent = [], write_results = [],
          read_results = [([3, 9], None), ([], Some (OtherError ''connection reset''))]\<rparr>"
  let ?cp1 = "ScriptConn \<lparr>sent = [], write_results = [],
          read_results = [([9], None), ([], Some (OtherError ''connection reset''))]\<rparr>"
  let ?ce = "ScriptConn \<lparr>sent = [], write_results = [], read_results = [([7], Some EOF)]\<rparr>"
  note run = ReadFull_def ReadAtLeast_def ReadAtLeast_loop.simps Read_def Write_def
    incoming_def ScriptConn_def script_Read_def script_Write_def
  note T = transport_errors [where ?'c = Script]
  have w1: "Write ?cw [2] = ((1, None), ScriptConn \<lparr>sent = [2],
      write_results = [Some (OtherError ''broken pipe'')], read_results = []\<rparr>)"
    by (simp add: run)
  have w2: "Write (ScriptConn \<lparr>sent = [2],
      write_results = [Some (OtherError ''broken pipe'')], read_results = []\<rparr>) (Get [7, 8]) =
      ((0, Some (OtherError ''broken pipe'')),
       ScriptConn \<lparr>sent = [2], write_results = [], read_results = []\<rparr>)"
    by (simp add: run Get_def)
  have W: "WritePacket ?w ?cw [7, 8] =
     Returns (Some (OtherError ''broken pipe''), ?w\<lparr>w_head := [2]\<rparr>,
       ScriptConn \<lparr>sent = [2], write_results = [], read_results = []\<rparr>)"
    using T [THEN conjunct1, rule_format, OF _ _ w1 w2, of ?w] by (simp add: Len_def)
  have h1: "ReadFull ?ch (r_head ?r2) =
      Some ((0, Some (OtherError ''connection reset'')), incoming [], [0, 0])"
    by (simp add: run)
  have R1: "ReadPacket ?r2 ?ch [9] =
     Some (Returns (Some (OtherError ''connection reset''), ?r2\<lparr>r_head := [0, 0]\<rparr>, incoming [], [9]))"
    using T [THEN conjunct2, THEN conjunct1, rule_format, OF h1] .
  have p1: "ReadFull ?cp (r_head ?r1) = Some ((1, None), ?cp1, [3])"
    by (simp add: run)
  have p2: "ReadFull ?cp1 (Get [0, 0, 0]) =
      Some ((1, Some (OtherError ''connection reset'')), incoming [], [9, 0, 0])"
    by (simp add: run Get_def)
  have d: "r_decodeHead ?r1 [3] = Returns 3" by simp
  have pr: "Prepare 3 [] = Returns [0, 0, 0]" by (simp add: Prepare_def numeral_3_eq_3)
  have R2: "ReadPacket ?r1 ?cp [] =
     Some (Returns (Some (OtherError ''connection reset''), ?r1\<lparr>r_head := [3]\<rparr>, incoming [], [9, 0, 0]))"
    using T [THEN conjunct2, THEN conjunct2, THEN conjunct1, rule_format, OF p1 d _ _ pr p2]
    by simp
  have f0: "Read ?ce (length [5, 5 :: byte]) = (([7], Some EOF), incoming [])"
    by (simp add: run)
  have F1: "ReadFull ?ce [5, 5] = Some ((1, Some ErrUnexpectedEOF), incoming [], [7, 5])"
    using T [THEN conjunct2, THEN conjunct2, THEN conjunct2, THEN conjunct1, rule_format, OF f0]
    by simp
  have l0: "Read (ScriptConn \<lparr>sent = [], write_results = [],
          read_results = [([9], Some (OtherError ''connection reset''))]\<rparr>)
        (length [3, 0, 0 :: byte] - 1) = (([9], Some (OtherError ''connection reset'')), incoming [])"
    by (simp add: run)
  have Lp: "ReadAtLeast_loop (ScriptConn \<lparr>sent = [], write_results = [],
          read_results = [([9], Some (OtherError ''connection reset''))]\<rparr>) [3, 0, 0] 3 1 None =
     Some ((2, Some (OtherError ''connection reset'')), incoming [], [3, 9, 0])"
    using T [THEN conjunct2, THEN conjunct2, THEN conjunct2, THEN conjunct2, THEN conjunct1,
        rule_format, OF _ l0, of 3]
    by simp
  have F: "\<exists>c0 m p e0. Read c0 m = ((p, Some e0), incoming []) \<and>
         ErrUnexpectedEOF = (if e0 = EOF \<and> 0 < (1 :: nat) then ErrUnexpectedEOF else e0)"
    using T [THEN conjunct2, THEN conjunct2, THEN conjunct2, THEN conjunct2, THEN conjunct2,
        rule_format, OF F1]
    by simp
  from W R1 R2 F1 Lp F show ?thesis by simp
qed

text \<open>
  C9. For the widths 1, 2 and 4 and \<^verbatim>\<open>MaxPacketSize\<close> 0, a payload whose length \<open>L\<close> is
  \<open>2^(8w)\<close> or more is not refused: \<^verbatim>\<open>WritePacket\<close> returns \<^verbatim>\<open>nil\<close>, having written a
  header and then all \<open>L\<close> payload bytes. A reader of the same configuration decodes
  that header to \<open>L mod 2^(8w)\<close>, which is not \<open>L\<close>.
\<close>

theorem oversize_length_truncated:
  assumes w: "is_writer p w" and r: "is_reader p r"
    and n: "p_n p \<noteq> 8"
    and big: "2 ^ (8 * nat (p_n p)) \<le> int (length payload)"
    and limit: "p_MaxPacketSize p = 0"
  shows "\<exists>hdr. length hdr = nat (p_n p)
    \<and> WritePacket w outgoing payload =
        Returns (None, w\<lparr>w_head := hdr\<rparr>,
          ScriptConn \<lparr>sent = hdr @ payload, write_results = [], read_results = []\<rparr>)
    \<and> r_decodeHead r hdr = Returns (int (length payload) mod 2 ^ (8 * nat (p_n p)))
    \<and> int (length payload) mod 2 ^ (8 * nat (p_n p)) \<noteq> int (length payload)"
proof -
  let ?L = "int (length payload)"
  from encode_decode[OF w r is_writerD(2)[OF w], of ?L] n
  obtain hdr where enc: "w_encodeHead w ?L (w_head w) = Returns hdr"
    and len: "length hdr = nat (p_n p)"
    and dec: "r_decodeHead r hdr = Returns (?L mod 2 ^ (8 * nat (p_n p)))"
    by auto
  have wr: "WritePacket w outgoing payload =
        Returns (None, w\<lparr>w_head := hdr\<rparr>,
          ScriptConn \<lparr>sent = hdr @ payload, write_results = [], read_results = []\<rparr>)"
    using WritePacket_script[of w payload hdr "\<lparr>sent = [], write_results = [], read_results = []\<rparr>"]
      enc limit is_writerD(3)[OF w]
    by (simp add: outgoing_def Len_def)
  have "?L mod 2 ^ (8 * nat (p_n p)) < 2 ^ (8 * nat (p_n p))" by simp
  with big have "?L mod 2 ^ (8 * nat (p_n p)) \<noteq> ?L" by linarith
  with len wr dec show ?thesis by blast
qed

theorem oversize_length_truncated_witness:
  "is_writer \<lparr>p_MaxPacketSize = 0, p_n = 1, p_bo = BigEndian, p_bf = ()\<rparr>
     \<lparr>w_MaxPacketSize = 0, w_head = [0],
       w_encodeHead = (\<lambda>sz h. if length h = 0 then Panics IndexOutOfRange
                                  else Returns (h[0 := word_of_int sz]))\<rparr>
   \<and> is_reader \<lparr>p_MaxPacketSize = 0, p_n = 1, p_bo = BigEndian, p_bf = ()\<rparr>
     \<lparr>r_MaxPacketSize = 0, r_head = [0],
       r_decodeHead = (\<lambda>h. if length h = 0 then Panics IndexOutOfRange
                              else Returns (uint (h ! 0)))\<rparr>
   \<and> (2 :: int) ^ (8 * nat 1) \<le> int (length (replicate 300 (7 :: byte)))
   \<and> WritePacket \<lparr>w_MaxPacketSize = 0, w_head = [0],
       w_encodeHead = (\<lambda>sz h. if length h = 0 then Panics IndexOutOfRange
                                  else Returns (h[0 := word_of_int sz]))\<rparr> outgoing (replicate 300 7) =
       Returns (None, \<lparr>w_MaxPacketSize = 0, w_head = [44],
       w_encodeHead = (\<lambda>sz h. if length h = 0 then Panics IndexOutOfRange
                                  else Returns (h[0 := word_of_int sz]))\<rparr>,
         ScriptConn \<lparr>sent = [44] @ replicate 300 7, write_results = [], read_results = []\<rparr>)
   \<and> r_decodeHead \<lparr>r_MaxPacketSize = 0, r_head = [0],
       r_decodeHead = (\<lambda>h. if length h = 0 then Panics IndexOutOfRange
                              else Returns (uint (h ! 0)))\<rparr> [44] = Returns 44
   \<and> (300 :: int) mod 2 ^ (8 * nat 1) = 44"
proof -
  let ?p = "\<lparr>p_MaxPacketSize = 0, p_n = 1, p_bo = BigEndian, p_bf = ()\<rparr>"
  let ?w = "\<lparr>w_MaxPacketSize = 0, w_head = [0],
       w_encodeHead = (\<lambda>sz h. if length h = 0 then Panics IndexOutOfRange
                                  else Returns (h[0 := word_of_int sz]))\<rparr>"
  let ?r = "\<lparr>r_MaxPacketSize = 0, r_head = [0],
       r_decodeHead = (\<lambda>h. if length h = 0 then Panics IndexOutOfRange
                              else Returns (uint (h ! 0)))\<rparr>"
  have w: "is_writer ?p ?w" by (simp add: is_writer_def NewWriter_def NewPNWriter_def)
  have r: "is_reader ?p ?r" by (simp add: is_reader_def NewReader_def NewPNReader_def)
  have n: "p_n ?p \<noteq> 8" by simp
  have b: "2 ^ (8 * nat (p_n ?p)) \<le> int (length (replicate 300 (7 :: byte)))" by simp
  have l: "p_MaxPacketSize ?p = 0" by simp
  from oversize_length_truncated [OF w r n b l] obtain hdr where
    len: "length hdr = nat (p_n ?p)"
    and wp: "WritePacket ?w outgoing (replicate 300 7) =
        Returns (None, ?w\<lparr>w_head := hdr\<rparr>,
          ScriptConn \<lparr>sent = hdr @ replicate 300 7, write_results = [], read_results = []\<rparr>)"
    and dec: "r_decodeHead ?r hdr = Returns (int (length (replicate 300 (7 :: byte))) mod 2 ^ (8 * nat (p_n ?p)))"
    by blast
  from len obtain a where a: "hdr = [a]" using len1[of hdr] by auto
  with dec have "uint a = 44" by simp
  then have "a = 44" by (metis word_of_int_uint word_of_int_numeral)
  with a wp dec w r show ?thesis by simp
qed

text \<open>
  C10. For the header width 1 the byte order has no effect: the writers that
  \<^verbatim>\<open>NewWriter\<close> makes for the big-endian and for the little-endian descriptor are the
  same object, and so are the readers; \<^verbatim>\<open>WritePacket\<close> and \<^verbatim>\<open>ReadPacket\<close> give the same
  result on every connection and buffer. The header of \<open>size\<close> is the one byte
  \<^verbatim>\<open>byte(size)\<close>, and a header byte decodes to its unsigned value.
\<close>

theorem width_one_ignores_byte_order:
  "\<exists>wB wL rB rL.
      NewWriter \<lparr>p_MaxPacketSize = M, p_n = 1, p_bo = BigEndian, p_bf = bf\<rparr> = Returns wB
    \<and> NewWriter \<lparr>p_MaxPacketSize = M, p_n = 1, p_bo = LittleEndian, p_bf = bf\<rparr> = Returns wL
    \<and> NewReader \<lparr>p_MaxPacketSize = M, p_n = 1, p_bo = BigEndian, p_bf = bf\<rparr> = Returns rB
    \<and> NewReader \<lparr>p_MaxPacketSize = M, p_n = 1, p_bo = LittleEndian, p_bf = bf\<rparr> = Returns rL
    \<and> wB = wL \<and> rB = rL
    \<and> (\<forall>conn buffer. WritePacket wB conn buffer = WritePacket wL conn buffer)
    \<and> (\<forall>conn buffer. ReadPacket rB conn buffer = ReadPacket rL conn buffer)
    \<and> (\<forall>sz b. w_encodeHead wB sz [b] = Returns [word_of_int sz])
    \<and> (\<forall>b. r_decodeHead rB [b] = Returns (uint b))"
  by (simp add: NewWriter_def NewReader_def NewPNWriter_def NewPNReader_def)

end
